theory Spec2Isabelle
  imports Complex_Main "HOL-Library.Sublist"
begin

section \<open>Go strings\<close>

text \<open>
  A Go string is a sequence of bytes; \<^typ>\<open>string\<close> is a list of 8-bit characters.
  The functions of package \<^verbatim>\<open>strings\<close> used by the importer are written out on
  bytes. Where Go consults the Unicode tables (case mapping of non-ASCII text) the table is
  a parameter of the model, see \<open>GoLib\<close> below.
\<close>

fun strings_Index :: "string \<Rightarrow> string \<Rightarrow> nat option" where
  "strings_Index [] sep = (if sep = [] then Some 0 else None)"
| "strings_Index (c # cs) sep =
     (if prefix sep (c # cs) then Some 0 else map_option Suc (strings_Index cs sep))"

definition strings_LastIndex :: "string \<Rightarrow> string \<Rightarrow> nat option" where
  "strings_LastIndex s sep =
     (case strings_Index (rev s) (rev sep) of
        None \<Rightarrow> None
      | Some i \<Rightarrow> Some (length s - i - length sep))"

definition strings_Contains :: "string \<Rightarrow> string \<Rightarrow> bool" where
  "strings_Contains s sub = (strings_Index s sub \<noteq> None)"

text \<open>
  \<^verbatim>\<open>strings.Split(s, sep)\<close> for a non-empty separator: cut at every occurrence, left
  to right. The importer only ever passes the literal separators \<^verbatim>\<open>"|"\<close>,
  \<^verbatim>\<open>" > "\<close>, \<^verbatim>\<open>"/"\<close> and \<^verbatim>\<open>"|||"\<close>. The fuel argument bounds the number
  of cuts by the length of the text.
\<close>

fun splitFuel :: "nat \<Rightarrow> string \<Rightarrow> string \<Rightarrow> string list" where
  "splitFuel 0 s sep = [s]"
| "splitFuel (Suc n) s sep =
     (case strings_Index s sep of
        None \<Rightarrow> [s]
      | Some i \<Rightarrow> take i s # splitFuel n (drop (i + length sep) s) sep)"

definition strings_Split :: "string \<Rightarrow> string \<Rightarrow> string list" where
  "strings_Split s sep = (if sep = [] then map (\<lambda>c. [c]) s else splitFuel (length s) s sep)"

fun replaceFuel :: "nat \<Rightarrow> string \<Rightarrow> string \<Rightarrow> string \<Rightarrow> string" where
  "replaceFuel 0 s old new = s"
| "replaceFuel (Suc n) s old new =
     (case strings_Index s old of
        None \<Rightarrow> s
      | Some i \<Rightarrow> take i s @ new @ replaceFuel n (drop (i + length old) s) old new)"

definition strings_ReplaceAll :: "string \<Rightarrow> string \<Rightarrow> string \<Rightarrow> string" where
  "strings_ReplaceAll s old new = (if old = [] then s else replaceFuel (length s) s old new)"

text \<open>
  \<^verbatim>\<open>strings.TrimSpace\<close> removes the white space runes of \<^verbatim>\<open>unicode.IsSpace\<close>:
  the six ASCII ones and, in UTF-8, U+0085, U+00A0, U+1680, U+2000..U+200A, U+2028, U+2029,
  U+202F, U+205F and U+3000.
\<close>

definition isAsciiSpace :: "char \<Rightarrow> bool" where
  "isAsciiSpace c = ((of_char c :: nat) \<in> {9, 10, 11, 12, 13, 32})"

definition unicodeSpaces :: "string list" where
  "unicodeSpaces =
     [[CHR 0xC2, CHR 0x85], [CHR 0xC2, CHR 0xA0], [CHR 0xE1, CHR 0x9A, CHR 0x80],
      [CHR 0xE2, CHR 0x80, CHR 0x80], [CHR 0xE2, CHR 0x80, CHR 0x81],
      [CHR 0xE2, CHR 0x80, CHR 0x82], [CHR 0xE2, CHR 0x80, CHR 0x83],
      [CHR 0xE2, CHR 0x80, CHR 0x84], [CHR 0xE2, CHR 0x80, CHR 0x85],
      [CHR 0xE2, CHR 0x80, CHR 0x86], [CHR 0xE2, CHR 0x80, CHR 0x87],
      [CHR 0xE2, CHR 0x80, CHR 0x88], [CHR 0xE2, CHR 0x80, CHR 0x89],
      [CHR 0xE2, CHR 0x80, CHR 0x8A], [CHR 0xE2, CHR 0x80, CHR 0xA8],
      [CHR 0xE2, CHR 0x80, CHR 0xA9], [CHR 0xE2, CHR 0x80, CHR 0xAF],
      [CHR 0xE2, CHR 0x81, CHR 0x9F], [CHR 0xE3, CHR 0x80, CHR 0x80]]"

definition spaceLen :: "string list \<Rightarrow> string \<Rightarrow> nat" where
  "spaceLen seqs s =
     (case s of
        [] \<Rightarrow> 0
      | c # _ \<Rightarrow>
          if isAsciiSpace c then 1
          else (case find (\<lambda>p. prefix p s) seqs of None \<Rightarrow> 0 | Some p \<Rightarrow> length p))"

fun trimFuel :: "nat \<Rightarrow> string list \<Rightarrow> string \<Rightarrow> string" where
  "trimFuel 0 seqs s = s"
| "trimFuel (Suc n) seqs s =
     (if spaceLen seqs s = 0 then s else trimFuel n seqs (drop (spaceLen seqs s) s))"

definition trimLeftSpace :: "string \<Rightarrow> string" where
  "trimLeftSpace s = trimFuel (length s) unicodeSpaces s"

definition trimRightSpace :: "string \<Rightarrow> string" where
  "trimRightSpace s = rev (trimFuel (length s) (map rev unicodeSpaces) (rev s))"

definition strings_TrimSpace :: "string \<Rightarrow> string" where
  "strings_TrimSpace s = trimRightSpace (trimLeftSpace s)"

definition strings_HasSuffix :: "string \<Rightarrow> string \<Rightarrow> bool" where
  "strings_HasSuffix s suf = suffix suf s"

definition strings_TrimChar :: "char \<Rightarrow> string \<Rightarrow> string" where
  "strings_TrimChar c s = rev (dropWhile (\<lambda>x. x = c) (rev (dropWhile (\<lambda>x. x = c) s)))"

definition isAsciiByte :: "char \<Rightarrow> bool" where
  "isAsciiByte c = ((of_char c :: nat) < 128)"

text \<open>
  ASCII case mapping, as a table: Go adds or subtracts \<^verbatim>\<open>'a' - 'A'\<close> on the letters.
\<close>

definition asciiLower :: "char \<Rightarrow> char" where
  "asciiLower c =
     (case map_of (zip ''ABCDEFGHIJKLMNOPQRSTUVWXYZ'' ''abcdefghijklmnopqrstuvwxyz'') c of
        Some l \<Rightarrow> l
      | None \<Rightarrow> c)"

definition asciiUpper :: "char \<Rightarrow> char" where
  "asciiUpper c =
     (case map_of (zip ''abcdefghijklmnopqrstuvwxyz'' ''ABCDEFGHIJKLMNOPQRSTUVWXYZ'') c of
        Some u \<Rightarrow> u
      | None \<Rightarrow> c)"

section \<open>Library and environment parameters\<close>

text \<open>
  \<^verbatim>\<open>float64\<close>: a finite value is carried by the rational number it denotes exactly,
  negative zero and the non-finite values are constructors of their own. The importer only
  compares prices with zero and prints them with \<^verbatim>\<open>%.2f\<close>.
\<close>

datatype float64 = Finite rat | NegZero | PosInf | NegInf | NaN

definition isZero :: "float64 \<Rightarrow> bool" where
  "isZero x = (x = Finite 0 \<or> x = NegZero)"

definition digit :: "nat \<Rightarrow> char" where
  "digit d = ''0123456789'' ! (d mod 10)"

fun itoa :: "nat \<Rightarrow> string" where
  "itoa n = (if n < 10 then [digit n] else itoa (n div 10) @ [digit (n mod 10)])"

declare itoa.simps [simp del]

definition roundHalfEven :: "rat \<Rightarrow> nat" where
  "roundHalfEven x =
     (let f = \<lfloor>x\<rfloor>; d = x - of_int f
      in nat (if d > 1 / 2 \<or> (d = 1 / 2 \<and> odd f) then f + 1 else f))"

definition decimal2 :: "nat \<Rightarrow> string" where
  "decimal2 q = itoa (q div 100) @ ''.'' @ [digit (q mod 100 div 10), digit (q mod 10)]"

text \<open>
  \<^verbatim>\<open>fmt.Sprintf("%.2f", x)\<close>: the exact value rounded to two decimals, ties to even,
  with the sign of the argument in front (so \<^verbatim>\<open>-0.001\<close> prints \<^verbatim>\<open>-0.00\<close>).
\<close>

fun fmt_2f :: "float64 \<Rightarrow> string" where
  "fmt_2f (Finite r) = (if r < 0 then ''-'' else '''') @ decimal2 (roundHalfEven (\<bar>r\<bar> * 100))"
| "fmt_2f NegZero = ''-0.00''"
| "fmt_2f PosInf = ''+Inf''"
| "fmt_2f NegInf = ''-Inf''"
| "fmt_2f NaN = ''NaN''"

text \<open>
  A panic ends the program (nothing in the repository recovers), so a computation that may
  panic returns \<open>Panic\<close> instead of a result.
\<close>

datatype 'a exec = Panic | Done 'a

text \<open>
  A decoded JSON value (\<^verbatim>\<open>interface{}\<close> after \<^verbatim>\<open>json.Unmarshal\<close>). A raw feed item
  is a Go \<^verbatim>\<open>map[string]interface{}\<close>; the XML and CSV parsers only store strings in it.
\<close>

datatype json = JNull | JBool bool | JNumber float64 | JString string
  | JArray "json list" | JObject "(string \<times> json) list"

type_synonym rawItem = "string \<rightharpoonup> json"

datatype xmlToken = StartElement string | EndElement string | CharData string | OtherToken

datatype xmlResult = Tok xmlToken | TokErr | TokEOF

text \<open>
  What the importer takes from libraries outside the repository: the digest, the Unicode
  case tables, regular expressions, number parsing, value printing, and the XML, CSV and
  JSON readers. \<open>xmlDecoder L bytes n\<close> is what the \<open>n\<close>-th call of
  \<^verbatim>\<open>decoder.Token()\<close> returns on a decoder reading \<open>bytes\<close>. \<open>csvLex L comma bytes\<close>
  is the lexical layer of \<^verbatim>\<open>encoding/csv\<close> (lazy quotes, leading space trimmed): the
  rows of fields, or the message of a parse error.
\<close>

record GoLib =
  md5hex :: "string \<Rightarrow> string"
  unicodeLower :: "string \<Rightarrow> string"
  unicodeUpper :: "string \<Rightarrow> string"
  unicodeEqualFold :: "string \<Rightarrow> string \<Rightarrow> bool"
  regexpCompile :: "string \<Rightarrow> (string \<Rightarrow> string \<Rightarrow> string) option"
  parseFloat :: "string \<Rightarrow> float64"
  atoi :: "string \<Rightarrow> int"
  fmtV :: "json \<Rightarrow> string"
  xmlDecoder :: "string \<Rightarrow> nat \<Rightarrow> xmlResult"
  csvLex :: "char \<Rightarrow> string \<Rightarrow> string + string list list"
  jsonUnmarshal :: "string \<Rightarrow> string + json"

text \<open>
  What a run takes from its surroundings: the identifiers \<^verbatim>\<open>uuid.New()\<close> hands out
  (the \<open>n\<close>-th one drawn), whether the \<open>n\<close>-th database statement fails (a statement
  that fails has no effect and returns an error), the outcome of the download, and the
  moment another goroutine calls \<^verbatim>\<open>Stop()\<close>: \<open>stopAfter = Some N\<close> when the stop is
  requested once \<open>N\<close> items have been processed.
\<close>

record Env =
  uuidNew :: "nat \<Rightarrow> string"
  dbDown :: "nat \<Rightarrow> bool"
  download :: "string + string"
  stopAfter :: "nat option"

definition strings_ToLower :: "GoLib \<Rightarrow> string \<Rightarrow> string" where
  "strings_ToLower L s = (if list_all isAsciiByte s then map asciiLower s else unicodeLower L s)"

definition strings_ToUpper :: "GoLib \<Rightarrow> string \<Rightarrow> string" where
  "strings_ToUpper L s = (if list_all isAsciiByte s then map asciiUpper s else unicodeUpper L s)"

definition strings_EqualFold :: "GoLib \<Rightarrow> string \<Rightarrow> string \<Rightarrow> bool" where
  "strings_EqualFold L s t =
     (if list_all isAsciiByte s \<and> list_all isAsciiByte t then map asciiLower s = map asciiLower t
      else unicodeEqualFold L s t)"

definition sprintV :: "GoLib \<Rightarrow> json \<Rightarrow> string" where
  "sprintV L v = (case v of JString s \<Rightarrow> s | _ \<Rightarrow> fmtV L v)"

section \<open>Data model (package models)\<close>

record FeedItem =
  Title :: string
  Description :: string
  ShortDescription :: string
  Price :: float64
  RegularPrice :: float64
  SalePrice :: float64
  EAN :: string
  SKU :: string
  MPN :: string
  ExternalID :: string
  ImageURL :: string
  GalleryImages :: "string list"
  CategoryPath :: string
  Brand :: string
  Manufacturer :: string
  StockStatus :: string
  StockQuantity :: int
  Attributes :: "(string \<times> string) list"
  AffiliateURL :: string
  ButtonText :: string
  DeliveryTime :: string

definition emptyItem :: FeedItem where
  "emptyItem =
     \<lparr>Title = '''', Description = '''', ShortDescription = '''', Price = Finite 0,
      RegularPrice = Finite 0, SalePrice = Finite 0, EAN = '''', SKU = '''', MPN = '''',
      ExternalID = '''', ImageURL = '''', GalleryImages = [], CategoryPath = '''', Brand = '''',
      Manufacturer = '''', StockStatus = '''', StockQuantity = 0, Attributes = [],
      AffiliateURL = '''', ButtonText = '''', DeliveryTime = ''''\<rparr>"

record FieldMapping =
  SourceField :: string
  TargetField :: string
  TransformType :: string
  TransformValue :: string
  DefaultValue :: string

definition FeedTypeXML :: string where "FeedTypeXML = ''xml''"
definition FeedTypeCSV :: string where "FeedTypeCSV = ''csv''"
definition FeedTypeJSON :: string where "FeedTypeJSON = ''json''"

definition ImportModeCreateUpdate :: string where "ImportModeCreateUpdate = ''create_update''"
definition ImportModeCreateOnly :: string where "ImportModeCreateOnly = ''create_only''"
definition ImportModeUpdateOnly :: string where "ImportModeUpdateOnly = ''update_only''"

definition MatchByEAN :: string where "MatchByEAN = ''ean''"
definition MatchBySKU :: string where "MatchBySKU = ''sku''"
definition MatchByTitle :: string where "MatchByTitle = ''title''"
definition MatchByExternalID :: string where "MatchByExternalID = ''external_id''"

definition ImportStatusIdle :: string where "ImportStatusIdle = ''idle''"
definition ImportStatusRunning :: string where "ImportStatusRunning = ''running''"
definition ImportStatusCompleted :: string where "ImportStatusCompleted = ''completed''"
definition ImportStatusFailed :: string where "ImportStatusFailed = ''failed''"
definition ImportStatusCancelled :: string where "ImportStatusCancelled = ''cancelled''"

text \<open>
  A feed, as the row of table \<^verbatim>\<open>feeds\<close> and as \<^verbatim>\<open>models.Feed\<close>. The columns no
  function below reads (description, schedule, timestamps, settings) are left out.
\<close>

record Feed =
  ID :: string
  Name :: string
  FeedURL :: string
  FeedType :: string
  feedXMLItemPath :: string
  feedCSVDelimiter :: string
  ImportMode :: string
  MatchBy :: string
  FieldMappings :: "FieldMapping list"
  feedStatus :: string
  LastError :: "string option"
  TotalProducts :: int

record ImportHistory =
  histID :: string
  histFeedID :: string
  histFinished :: bool
  histTotalItems :: int
  histProcessed :: int
  histCreated :: int
  histUpdated :: int
  histSkipped :: int
  histErrors :: int
  histStatus :: string
  histErrorMessage :: "string option"
  histTriggeredBy :: string

text \<open>
  The counters are Go \<^verbatim>\<open>int\<close>s (64 bits); each grows by at most one per item of a feed
  held in memory, so they are modelled as unbounded integers. Clock readings (elapsed time,
  ETA, speed) and the rolling log are left out: no branch of the engine reads them.
\<close>

record ImportProgress =
  progFeedID :: string
  progHistoryID :: string
  Status :: string
  Percent :: int
  Total :: int
  Processed :: int
  Created :: int
  Updated :: int
  Skipped :: int
  Errors :: int
  Message :: string

section \<open>The catalog database\<close>

text \<open>
  A product row keeps the columns written from a feed item as that item (an empty string
  or a zero stands for SQL NULL), next to the columns the importer sets itself.
\<close>

record product =
  p_id :: string
  p_slug :: string
  p_item :: FeedItem
  p_category_id :: "string option"
  p_feed_id :: "string option"
  p_checksum :: string
  p_is_active :: bool

record category =
  c_id :: string
  c_name :: string
  c_slug :: string
  c_parent_id :: "string option"
  c_product_count :: int
  c_is_active :: bool

text \<open>
  The database and the identifier source. \<open>stmts\<close> counts the statements sent so far and
  \<open>uuids\<close> the identifiers drawn so far; they index the environment's \<open>dbDown\<close> and
  \<open>uuidNew\<close>. A \<^verbatim>\<open>LIMIT 1\<close> query without an order returns the first matching row of
  the list.
\<close>

record World =
  products :: "product list"
  categories :: "category list"
  feedsTable :: "string \<rightharpoonup> Feed"
  import_history :: "ImportHistory list"
  stmts :: nat
  uuids :: nat

definition tick :: "World \<Rightarrow> World" where
  "tick w = w\<lparr>stmts := stmts w + 1\<rparr>"

definition uuid_New :: "Env \<Rightarrow> World \<Rightarrow> string \<times> World" where
  "uuid_New env w = (uuidNew env (uuids w), w\<lparr>uuids := uuids w + 1\<rparr>)"

section \<open>FeedParser\<close>

record FeedParser =
  URL :: string
  Type :: string
  XMLItemPath :: string
  CSVDelimiter :: string
  CSVHasHeader :: bool

definition NewFeedParser :: "string \<Rightarrow> string \<Rightarrow> FeedParser" where
  "NewFeedParser url feedType =
     \<lparr>URL = url, Type = feedType, XMLItemPath = ''SHOPITEM'', CSVDelimiter = '';'',
      CSVHasHeader = True\<rparr>"

definition utf8BOM :: string where
  "utf8BOM = [CHR 0xEF, CHR 0xBB, CHR 0xBF]"

definition invalidXMLChar :: "char \<Rightarrow> bool" where
  "invalidXMLChar c =
     (let n = (of_char c :: nat) in n \<le> 8 \<or> n = 11 \<or> n = 12 \<or> (14 \<le> n \<and> n \<le> 31))"

definition sanitizeXML :: "string \<Rightarrow> string" where
  "sanitizeXML data =
     filter (\<lambda>c. \<not> invalidXMLChar c) (if prefix utf8BOM data then drop 3 data else data)"

text \<open>
  \<^verbatim>\<open>fixPartialXML\<close> searches the lower-cased text and cuts the original text at the index
  found there; a slice bound beyond the original text panics.
\<close>

definition fixPartialXML :: "GoLib \<Rightarrow> FeedParser \<Rightarrow> string \<Rightarrow> string exec" where
  "fixPartialXML L p data =
     (let closeTagLower = ''</'' @ strings_ToLower L (XMLItemPath p) @ ''>'';
          cut =
            (case strings_LastIndex (strings_ToLower L data) closeTagLower of
               None \<Rightarrow> Done data
             | Some lastClose \<Rightarrow>
                 if lastClose > 0 then
                   (if lastClose + length closeTagLower \<le> length data
                    then Done (take (lastClose + length closeTagLower) data) else Panic)
                 else Done data)
      in case cut of
           Panic \<Rightarrow> Panic
         | Done str \<Rightarrow>
             if \<not> strings_HasSuffix (strings_TrimSpace str) ''>'' then Done (str @ ''>'')
             else Done str)"

text \<open>What \<^verbatim>\<open>previewXML\<close> hands to its decoder: the bytes sanitized, then repaired.\<close>

definition previewXMLInput :: "GoLib \<Rightarrow> FeedParser \<Rightarrow> string \<Rightarrow> string exec" where
  "previewXMLInput L p data = fixPartialXML L p (sanitizeXML data)"

record XmlState =
  currentItem :: rawItem
  inItem :: bool
  itemDepth :: nat
  currentPath :: "string list"

definition xmlInit :: XmlState where
  "xmlInit = \<lparr>currentItem = Map.empty, inItem = False, itemDepth = 0, currentPath = []\<rparr>"

text \<open>
  One turn of the token switch of \<^verbatim>\<open>ParseXMLFull\<close>: the state after the token, and the
  item handed to the callback when the token closes an item. (The callback runs before the
  state is reset; when it fails the loop returns at once and the state is dropped.)
\<close>

definition xmlStep :: "GoLib \<Rightarrow> string \<Rightarrow> xmlToken \<Rightarrow> XmlState \<Rightarrow> XmlState \<times> rawItem option" where
  "xmlStep L path t x =
     (case t of
        StartElement name \<Rightarrow>
          (let x1 = x\<lparr>currentPath := currentPath x @ [name]\<rparr>
           in if strings_EqualFold L name path
              then (x1\<lparr>inItem := True, itemDepth := length (currentPath x1),
                        currentItem := Map.empty\<rparr>, None)
              else (x1, None))
      | EndElement name \<Rightarrow>
          (if inItem x \<and> strings_EqualFold L name path \<and> length (currentPath x) = itemDepth x
           then (x\<lparr>inItem := False, currentItem := Map.empty,
                    currentPath := butlast (currentPath x)\<rparr>, Some (currentItem x))
           else (x\<lparr>currentPath := butlast (currentPath x)\<rparr>, None))
      | CharData d \<Rightarrow>
          (if inItem x \<and> length (currentPath x) > itemDepth x
           then (let fieldName = last (currentPath x); v = strings_TrimSpace d
                 in if v \<noteq> '''' then (x\<lparr>currentItem := (currentItem x)(fieldName \<mapsto> JString v)\<rparr>, None)
                    else (x, None))
           else (x, None))
      | OtherToken \<Rightarrow> (x, None))"

text \<open>
  The token loop. It leaves on \<^verbatim>\<open>io.EOF\<close> or on an error of the callback; on every other
  error of the decoder it calls \<^verbatim>\<open>Token()\<close> again. \<open>None\<close> is a loop that never returns.
\<close>

partial_function (option) xmlLoop ::
  "GoLib \<Rightarrow> string \<Rightarrow> (nat \<Rightarrow> xmlResult) \<Rightarrow> (rawItem \<Rightarrow> 's \<Rightarrow> (string option \<times> 's) exec)
     \<Rightarrow> nat \<Rightarrow> XmlState \<Rightarrow> 's \<Rightarrow> (string option \<times> 's) exec option"
where
  "xmlLoop L path toks cb n x s =
     (case toks n of
        TokEOF \<Rightarrow> Some (Done (None, s))
      | TokErr \<Rightarrow> xmlLoop L path toks cb (n + 1) x s
      | Tok t \<Rightarrow>
          (case xmlStep L path t x of
             (x', None) \<Rightarrow> xmlLoop L path toks cb (n + 1) x' s
           | (x', Some item) \<Rightarrow>
               (case cb item s of
                  Panic \<Rightarrow> Some Panic
                | Done (Some err, s') \<Rightarrow> Some (Done (Some err, s'))
                | Done (None, s') \<Rightarrow> xmlLoop L path toks cb (n + 1) x' s')))"

definition ParseXMLFull ::
  "GoLib \<Rightarrow> FeedParser \<Rightarrow> string \<Rightarrow> (rawItem \<Rightarrow> 's \<Rightarrow> (string option \<times> 's) exec) \<Rightarrow> 's
     \<Rightarrow> (string option \<times> 's) exec option"
where
  "ParseXMLFull L p data callback s =
     xmlLoop L (XMLItemPath p) (xmlDecoder L (sanitizeXML data)) callback 0 xmlInit s"

text \<open>A \<^verbatim>\<open>for _, item := range items\<close> loop that returns the callback's first error.\<close>

fun forEachItem ::
  "(rawItem \<Rightarrow> 's \<Rightarrow> (string option \<times> 's) exec) \<Rightarrow> rawItem list \<Rightarrow> 's \<Rightarrow> (string option \<times> 's) exec"
where
  "forEachItem cb [] s = Done (None, s)"
| "forEachItem cb (item # items) s =
     (case cb item s of
        Panic \<Rightarrow> Panic
      | Done (Some err, s') \<Rightarrow> Done (Some err, s')
      | Done (None, s') \<Rightarrow> forEachItem cb items s')"

text \<open>
  \<^verbatim>\<open>reader.ReadAll()\<close> of \<^verbatim>\<open>encoding/csv\<close>. The importer sets \<^verbatim>\<open>Comma\<close>,
  \<^verbatim>\<open>LazyQuotes\<close> and \<^verbatim>\<open>TrimLeadingSpace\<close> and leaves \<^verbatim>\<open>FieldsPerRecord\<close> at its
  zero value, for which the package documents: the number of fields of the first record
  becomes the number every later record must have, and a record with another number of
  fields is the error \<^verbatim>\<open>ErrFieldCount\<close> (\<^verbatim>\<open>wrong number of fields\<close>).
\<close>

definition ErrFieldCount :: string where
  "ErrFieldCount = ''wrong number of fields''"

definition csvReadAll :: "GoLib \<Rightarrow> char \<Rightarrow> string \<Rightarrow> string + string list list" where
  "csvReadAll L comma data =
     (case csvLex L comma data of
        Inl err \<Rightarrow> Inl err
      | Inr records \<Rightarrow>
          (case records of
             [] \<Rightarrow> Inr []
           | first # rest \<Rightarrow>
               if list_all (\<lambda>r. length r = length first) rest then Inr records
               else Inl ErrFieldCount))"

text \<open>
  The inner loop of \<^verbatim>\<open>ParseCSVFull\<close>: \<^verbatim>\<open>item[headers[j]] = value\<close> for every
  \<^verbatim>\<open>j < len(headers)\<close>, in order, so a later column of the same name overwrites.
\<close>

fun csvItem :: "string list \<Rightarrow> string list \<Rightarrow> rawItem \<Rightarrow> rawItem" where
  "csvItem (h # hs) (v # vs) item = csvItem hs vs (item(h \<mapsto> JString v))"
| "csvItem _ _ item = item"

definition ParseCSVFull ::
  "GoLib \<Rightarrow> FeedParser \<Rightarrow> string \<Rightarrow> (rawItem \<Rightarrow> 's \<Rightarrow> (string option \<times> 's) exec) \<Rightarrow> 's
     \<Rightarrow> (string option \<times> 's) exec"
where
  "ParseCSVFull L p data callback s =
     (case CSVDelimiter p of
        [] \<Rightarrow> Panic
      | comma # _ \<Rightarrow>
          (case csvReadAll L comma data of
             Inl err \<Rightarrow> Done (Some err, s)
           | Inr records \<Rightarrow>
               (case records of
                  [] \<Rightarrow> Done (None, s)
                | headers # rows \<Rightarrow>
                    forEachItem callback (map (\<lambda>record. csvItem headers record Map.empty) rows) s)))"

fun asArray :: "json option \<Rightarrow> json list option" where
  "asArray (Some (JArray arr)) = Some arr"
| "asArray _ = None"

fun findJSONKeys :: "GoLib \<Rightarrow> (string \<times> json) list \<Rightarrow> string list \<Rightarrow> json list option" where
  "findJSONKeys L obj [] = None"
| "findJSONKeys L obj (key # keys) =
     (case asArray (map_of obj key) of
        Some arr \<Rightarrow> Some arr
      | None \<Rightarrow>
          (case asArray (map_of obj (strings_ToLower L key)) of
             Some arr \<Rightarrow> Some arr
           | None \<Rightarrow> findJSONKeys L obj keys))"

definition findJSONProductsArray :: "GoLib \<Rightarrow> json \<Rightarrow> json list option" where
  "findJSONProductsArray L data =
     (case data of
        JArray arr \<Rightarrow> Some arr
      | JObject obj \<Rightarrow>
          findJSONKeys L obj [''products'', ''items'', ''offers'', ''data'', ''results'', ''SHOPITEM'']
      | _ \<Rightarrow> None)"

fun jsonObjects :: "json list \<Rightarrow> rawItem list" where
  "jsonObjects [] = []"
| "jsonObjects (JObject obj # rest) = map_of obj # jsonObjects rest"
| "jsonObjects (_ # rest) = jsonObjects rest"

definition ParseJSONFull ::
  "GoLib \<Rightarrow> FeedParser \<Rightarrow> string \<Rightarrow> (rawItem \<Rightarrow> 's \<Rightarrow> (string option \<times> 's) exec) \<Rightarrow> 's
     \<Rightarrow> (string option \<times> 's) exec"
where
  "ParseJSONFull L p data callback s =
     (case jsonUnmarshal L data of
        Inl err \<Rightarrow> Done (Some err, s)
      | Inr raw \<Rightarrow>
          (case findJSONProductsArray L raw of
             None \<Rightarrow> Done (Some ''no products array found'', s)
           | Some items \<Rightarrow> forEachItem callback (jsonObjects items) s))"

section \<open>ImportEngine\<close>

text \<open>
  The engine. \<^verbatim>\<open>progress\<close> is a pointer that \<^verbatim>\<open>Run\<close> sets before anything reads it
  there; the parser \<^verbatim>\<open>Run\<close> builds is local to it. The mutex is not modelled: a run is
  one sequential task, and the only write from outside, \<^verbatim>\<open>Stop()\<close>, comes from the
  environment.
\<close>

record ImportEngine =
  feed :: Feed
  progress :: ImportProgress
  historyID :: string
  isRunning :: bool
  shouldStop :: bool
  categoryCache :: "string \<rightharpoonup> string"

definition zeroProgress :: ImportProgress where
  "zeroProgress =
     \<lparr>progFeedID = '''', progHistoryID = '''', Status = '''', Percent = 0, Total = 0,
      Processed = 0, Created = 0, Updated = 0, Skipped = 0, Errors = 0, Message = ''''\<rparr>"

definition NewImportEngine :: "Feed \<Rightarrow> ImportEngine" where
  "NewImportEngine f =
     \<lparr>feed = f, progress = zeroProgress, historyID = '''', isRunning = False,
      shouldStop = False, categoryCache = Map.empty\<rparr>"

subsection \<open>Mapping a raw item\<close>

fun getFieldValue :: "GoLib \<Rightarrow> rawItem \<Rightarrow> string list \<Rightarrow> string" where
  "getFieldValue L raw [] = ''''"
| "getFieldValue L raw (key # keys) =
     (case raw key of
        Some val \<Rightarrow> sprintV L val
      | None \<Rightarrow>
          (case raw (strings_ToLower L key) of
             Some val \<Rightarrow> sprintV L val
           | None \<Rightarrow> getFieldValue L raw keys))"

text \<open>
  In the \<^verbatim>\<open>regex\<close> transform the error of \<^verbatim>\<open>regexp.Compile\<close> is dropped and the
  result used: a pattern that does not compile is a nil pointer dereference.
\<close>

definition applyTransform :: "GoLib \<Rightarrow> string \<Rightarrow> string \<Rightarrow> string \<Rightarrow> string exec" where
  "applyTransform L v transformType transformValue =
     (if transformType = ''trim'' then Done (strings_TrimSpace v)
      else if transformType = ''lowercase'' then Done (strings_ToLower L v)
      else if transformType = ''uppercase'' then Done (strings_ToUpper L v)
      else if transformType = ''regex'' then
        (case strings_Split transformValue ''|||'' of
           [pat, repl] \<Rightarrow>
             (case regexpCompile L pat of None \<Rightarrow> Panic | Some re \<Rightarrow> Done (re v repl))
         | _ \<Rightarrow> Done v)
      else if transformType = ''default'' then Done (if v = '''' then transformValue else v)
      else Done v)"

definition isPriceChar :: "char \<Rightarrow> bool" where
  "isPriceChar c =
     ((48 \<le> (of_char c :: nat) \<and> (of_char c :: nat) \<le> 57) \<or> c = CHR '','' \<or> c = CHR ''.'')"

definition parsePrice :: "GoLib \<Rightarrow> string \<Rightarrow> float64" where
  "parsePrice L v = parseFloat L (strings_ReplaceAll (filter isPriceChar v) '','' ''.'')"

definition setTarget :: "GoLib \<Rightarrow> string \<Rightarrow> string \<Rightarrow> FeedItem \<Rightarrow> FeedItem" where
  "setTarget L target v item =
     (if target = ''title'' then item\<lparr>Title := v\<rparr>
      else if target = ''description'' then item\<lparr>Description := v\<rparr>
      else if target = ''short_description'' then item\<lparr>ShortDescription := v\<rparr>
      else if target = ''price'' then item\<lparr>Price := parsePrice L v\<rparr>
      else if target = ''regular_price'' then item\<lparr>RegularPrice := parsePrice L v\<rparr>
      else if target = ''sale_price'' then item\<lparr>SalePrice := parsePrice L v\<rparr>
      else if target = ''ean'' then item\<lparr>EAN := v\<rparr>
      else if target = ''sku'' then item\<lparr>SKU := v\<rparr>
      else if target = ''external_id'' then item\<lparr>ExternalID := v\<rparr>
      else if target = ''image_url'' then item\<lparr>ImageURL := v\<rparr>
      else if target = ''gallery_images'' then item\<lparr>GalleryImages := strings_Split v ''|''\<rparr>
      else if target = ''category'' then item\<lparr>CategoryPath := v\<rparr>
      else if target = ''brand'' then item\<lparr>Brand := v\<rparr>
      else if target = ''manufacturer'' then item\<lparr>Manufacturer := v\<rparr>
      else if target = ''stock_status'' then item\<lparr>StockStatus := v\<rparr>
      else if target = ''stock_quantity'' then item\<lparr>StockQuantity := atoi L v\<rparr>
      else if target = ''affiliate_url'' then item\<lparr>AffiliateURL := v\<rparr>
      else if target = ''button_text'' then item\<lparr>ButtonText := v\<rparr>
      else if target = ''delivery_time'' then item\<lparr>DeliveryTime := v\<rparr>
      else item)"

fun applyMappings :: "GoLib \<Rightarrow> rawItem \<Rightarrow> FieldMapping list \<Rightarrow> FeedItem \<Rightarrow> FeedItem exec" where
  "applyMappings L raw [] item = Done item"
| "applyMappings L raw (m # ms) item =
     (let v0 = getFieldValue L raw [SourceField m];
          v1 = (if v0 = '''' \<and> DefaultValue m \<noteq> '''' then DefaultValue m else v0)
      in case applyTransform L v1 (TransformType m) (TransformValue m) of
           Panic \<Rightarrow> Panic
         | Done v \<Rightarrow> applyMappings L raw ms (setTarget L (TargetField m) v item))"

definition autoMap :: "GoLib \<Rightarrow> rawItem \<Rightarrow> FeedItem \<Rightarrow> FeedItem" where
  "autoMap L raw item =
     item\<lparr>Title := getFieldValue L raw [''PRODUCTNAME'', ''title'', ''name'', ''nazov''],
          Description := getFieldValue L raw [''DESCRIPTION'', ''description'', ''popis''],
          Price := parsePrice L (getFieldValue L raw [''PRICE_VAT'', ''price'', ''cena'']),
          EAN := getFieldValue L raw [''EAN'', ''ean'', ''ean13'', ''gtin''],
          SKU := getFieldValue L raw [''SKU'', ''sku'', ''ITEMGROUP_ID'', ''kod''],
          ImageURL := getFieldValue L raw [''IMGURL'', ''image'', ''image_url'', ''img_url''],
          CategoryPath := getFieldValue L raw [''CATEGORYTEXT'', ''category'', ''kategoria''],
          Brand := getFieldValue L raw [''MANUFACTURER'', ''brand'', ''vyrobca''],
          AffiliateURL := getFieldValue L raw [''URL'', ''url'', ''link'']\<rparr>"

text \<open>
  \<^verbatim>\<open>mapItem\<close>: \<open>Done None\<close> is the nil item of a raw record without a title. The field
  mappings of the feed are read as the list they decode to.
\<close>

definition mapItem :: "GoLib \<Rightarrow> Feed \<Rightarrow> rawItem \<Rightarrow> FeedItem option exec" where
  "mapItem L f raw =
     (case applyMappings L raw (FieldMappings f) emptyItem of
        Panic \<Rightarrow> Panic
      | Done item0 \<Rightarrow>
          (let item = (if FieldMappings f = [] then autoMap L raw item0 else item0)
           in if Title item = '''' then Done None else Done (Some item)))"

subsection \<open>Change detection\<close>

definition checksumData :: "FeedItem \<Rightarrow> string" where
  "checksumData item =
     Title item @ ''|'' @ Description item @ ''|'' @ EAN item @ ''|'' @ fmt_2f (Price item)
       @ ''|'' @ ImageURL item @ ''|'' @ CategoryPath item"

definition calculateChecksum :: "GoLib \<Rightarrow> FeedItem \<Rightarrow> string" where
  "calculateChecksum L item = md5hex L (checksumData item)"

definition queryProduct :: "Env \<Rightarrow> (product \<Rightarrow> bool) \<Rightarrow> World \<Rightarrow> (string \<times> string) \<times> World" where
  "queryProduct env cond w =
     (if dbDown env (stmts w) then (('''', ''''), tick w)
      else (case find cond (products w) of
              None \<Rightarrow> (('''', ''''), tick w)
            | Some p \<Rightarrow> ((p_id p, p_checksum p), tick w)))"

definition findExistingProduct :: "Env \<Rightarrow> Feed \<Rightarrow> FeedItem \<Rightarrow> World \<Rightarrow> (string \<times> string) \<times> World" where
  "findExistingProduct env f item w =
     (if MatchBy f = MatchByEAN then
        (if EAN item \<noteq> '''' then queryProduct env (\<lambda>p. EAN (p_item p) = EAN item) w
         else (('''', ''''), w))
      else if MatchBy f = MatchBySKU then
        (if SKU item \<noteq> '''' then queryProduct env (\<lambda>p. SKU (p_item p) = SKU item) w
         else (('''', ''''), w))
      else if MatchBy f = MatchByExternalID then
        (if ExternalID item \<noteq> ''''
         then queryProduct env (\<lambda>p. ExternalID (p_item p) = ExternalID item) w
         else (('''', ''''), w))
      else if MatchBy f = MatchByTitle then
        queryProduct env (\<lambda>p. Title (p_item p) = Title item) w
      else (('''', ''''), w))"

subsection \<open>Categories\<close>

definition slugReplacements :: "(string \<times> string) list" where
  "slugReplacements =
     [([CHR 0xC3, CHR 0xA1], ''a''), ([CHR 0xC3, CHR 0xA4], ''a''),
      ([CHR 0xC4, CHR 0x8D], ''c''), ([CHR 0xC4, CHR 0x8F], ''d''),
      ([CHR 0xC3, CHR 0xA9], ''e''), ([CHR 0xC3, CHR 0xAD], ''i''),
      ([CHR 0xC4, CHR 0xBA], ''l''), ([CHR 0xC4, CHR 0xBE], ''l''),
      ([CHR 0xC5, CHR 0x88], ''n''), ([CHR 0xC3, CHR 0xB3], ''o''),
      ([CHR 0xC3, CHR 0xB4], ''o''), ([CHR 0xC5, CHR 0x95], ''r''),
      ([CHR 0xC5, CHR 0xA1], ''s''), ([CHR 0xC5, CHR 0xA5], ''t''),
      ([CHR 0xC3, CHR 0xBA], ''u''), ([CHR 0xC3, CHR 0xBD], ''y''),
      ([CHR 0xC5, CHR 0xBE], ''z'')]"

definition isSlugChar :: "char \<Rightarrow> bool" where
  "isSlugChar c =
     ((97 \<le> (of_char c :: nat) \<and> (of_char c :: nat) \<le> 122)
      \<or> (48 \<le> (of_char c :: nat) \<and> (of_char c :: nat) \<le> 57))"

text \<open>Every maximal run of bytes outside \<^verbatim>\<open>[a-z0-9]\<close> becomes one dash.\<close>

fun dashRuns :: "bool \<Rightarrow> string \<Rightarrow> string" where
  "dashRuns inRun [] = []"
| "dashRuns inRun (c # cs) =
     (if isSlugChar c then c # dashRuns False cs
      else if inRun then dashRuns True cs
      else CHR ''-'' # dashRuns True cs)"

text \<open>
  \<^verbatim>\<open>generateSlug\<close> ends every slug with the first eight characters of a fresh identifier.
  (The replacement table is a Go map, walked in no fixed order; its keys are two-byte
  sequences that neither overlap nor arise from a replacement, so the order is immaterial.)
\<close>

definition slugBase :: "GoLib \<Rightarrow> string \<Rightarrow> string" where
  "slugBase L text =
     (let s0 = strings_ToLower L text;
          s1 = fold (\<lambda>(from, to) s. strings_ReplaceAll s from to) slugReplacements s0;
          s2 = strings_TrimChar (CHR ''-'') (dashRuns False s1)
      in if length s2 > 200 then take 200 s2 else s2)"

definition generateSlug :: "GoLib \<Rightarrow> Env \<Rightarrow> string \<Rightarrow> World \<Rightarrow> string \<times> World" where
  "generateSlug L env text w =
     (let (u, w') = uuid_New env w in (slugBase L text @ ''-'' @ take 8 u, w'))"

text \<open>
  The path is split at \<^verbatim>\<open>|\<close>; the other two separators are tried when that split has
  no parts at all.
\<close>

definition categoryParts :: "string \<Rightarrow> string list" where
  "categoryParts categoryPath =
     (let parts = strings_Split categoryPath ''|'';
          parts = (if length parts = 0 then strings_Split categoryPath '' > '' else parts);
          parts = (if length parts = 0 then strings_Split categoryPath ''/'' else parts)
      in parts)"

definition queryCategory :: "Env \<Rightarrow> string \<Rightarrow> string option \<Rightarrow> World \<Rightarrow> string option \<times> World" where
  "queryCategory env slug parentID w =
     (if dbDown env (stmts w) then (None, tick w)
      else (map_option c_id (find (\<lambda>c. c_slug c = slug \<and> c_parent_id c = parentID) (categories w)),
            tick w))"

definition insertCategory :: "Env \<Rightarrow> category \<Rightarrow> World \<Rightarrow> World" where
  "insertCategory env c w =
     (if dbDown env (stmts w) then tick w
      else tick (w\<lparr>categories := categories w @ [c]\<rparr>))"

text \<open>
  The loop over the parts of a path: \<open>parentID\<close> and \<open>lastID\<close> are the loop's variables.
  The result of the \<^verbatim>\<open>INSERT\<close> is not looked at.
\<close>

fun resolveParts ::
  "GoLib \<Rightarrow> Env \<Rightarrow> string list \<Rightarrow> string option \<Rightarrow> string \<Rightarrow> World \<Rightarrow> string \<times> World"
where
  "resolveParts L env [] parentID lastID w = (lastID, w)"
| "resolveParts L env (part # parts) parentID lastID w =
     (let name = strings_TrimSpace part
      in if name = '''' then resolveParts L env parts parentID lastID w
         else
           (let (slug, w1) = generateSlug L env name w;
                (found, w2) = queryCategory env slug parentID w1;
                (categoryID, w3) =
                  (case found of
                     Some cid \<Rightarrow> (cid, w2)
                   | None \<Rightarrow>
                       (let (cid, w') = uuid_New env w2
                        in (cid, insertCategory env
                                   \<lparr>c_id = cid, c_name = name, c_slug = slug,
                                    c_parent_id = parentID, c_product_count = 0,
                                    c_is_active = True\<rparr> w')))
            in if categoryID \<noteq> ''''
               then resolveParts L env parts (Some categoryID) categoryID w3
               else resolveParts L env parts parentID lastID w3))"

definition getOrCreateCategory ::
  "GoLib \<Rightarrow> Env \<Rightarrow> string \<Rightarrow> ImportEngine \<Rightarrow> World \<Rightarrow> string option \<times> ImportEngine \<times> World"
where
  "getOrCreateCategory L env categoryPath e w =
     (if categoryPath = '''' then (None, e, w)
      else
        (case categoryCache e categoryPath of
           Some cachedID \<Rightarrow> (Some cachedID, e, w)
         | None \<Rightarrow>
             (let (lastID, w') = resolveParts L env (categoryParts categoryPath) None '''' w
              in if lastID \<noteq> ''''
                 then (Some lastID,
                       e\<lparr>categoryCache := (categoryCache e)(categoryPath \<mapsto> lastID)\<rparr>, w')
                 else (None, e, w'))))"

subsection \<open>Writing products\<close>

definition coalesce :: "string \<Rightarrow> string \<Rightarrow> string" where
  "coalesce s def = (if s = '''' then def else s)"

definition dbError :: string where
  "dbError = ''database error''"

text \<open>The columns an \<^verbatim>\<open>INSERT\<close> or \<^verbatim>\<open>UPDATE\<close> takes from the item.\<close>

definition storedItem :: "FeedItem \<Rightarrow> FeedItem" where
  "storedItem item =
     item\<lparr>StockStatus := coalesce (StockStatus item) ''instock'',
          ButtonText := coalesce (ButtonText item)
                          (''K'' @ [CHR 0xC3, CHR 0xBA] @ ''pi'' @ [CHR 0xC5, CHR 0xA5])\<rparr>"

definition createProduct ::
  "GoLib \<Rightarrow> Env \<Rightarrow> ImportEngine \<Rightarrow> FeedItem \<Rightarrow> string option \<Rightarrow> string \<Rightarrow> World
     \<Rightarrow> string option \<times> World"
where
  "createProduct L env e item categoryID checksum w =
     (let (pid, w1) = uuid_New env w;
          (slug, w2) = generateSlug L env (Title item) w1
      in if dbDown env (stmts w2) then (Some dbError, tick w2)
         else (None,
               tick (w2\<lparr>products := products w2 @
                         [\<lparr>p_id = pid, p_slug = slug, p_item = (storedItem item)\<lparr>MPN := ''''\<rparr>,
                           p_category_id = categoryID, p_feed_id = Some (ID (feed e)),
                           p_checksum = checksum, p_is_active = True\<rparr>]\<rparr>)))"

definition updateProduct ::
  "Env \<Rightarrow> string \<Rightarrow> FeedItem \<Rightarrow> string option \<Rightarrow> string \<Rightarrow> World \<Rightarrow> string option \<times> World"
where
  "updateProduct env pid item categoryID checksum w =
     (if dbDown env (stmts w) then (Some dbError, tick w)
      else (None,
            tick (w\<lparr>products :=
                      map (\<lambda>p. if p_id p = pid
                                then p\<lparr>p_item := (storedItem item)\<lparr>MPN := MPN (p_item p)\<rparr>,
                                       p_category_id := categoryID, p_checksum := checksum\<rparr>
                                else p)
                          (products w)\<rparr>)))"

definition incSkipped :: "ImportEngine \<Rightarrow> ImportEngine" where
  "incSkipped e = e\<lparr>progress := (progress e)\<lparr>Skipped := Skipped (progress e) + 1\<rparr>\<rparr>"

definition incUpdated :: "ImportEngine \<Rightarrow> ImportEngine" where
  "incUpdated e = e\<lparr>progress := (progress e)\<lparr>Updated := Updated (progress e) + 1\<rparr>\<rparr>"

definition incCreated :: "ImportEngine \<Rightarrow> ImportEngine" where
  "incCreated e = e\<lparr>progress := (progress e)\<lparr>Created := Created (progress e) + 1\<rparr>\<rparr>"

definition incErrors :: "ImportEngine \<Rightarrow> ImportEngine" where
  "incErrors e = e\<lparr>progress := (progress e)\<lparr>Errors := Errors (progress e) + 1\<rparr>\<rparr>"

definition incProcessed :: "ImportEngine \<Rightarrow> ImportEngine" where
  "incProcessed e = e\<lparr>progress := (progress e)\<lparr>Processed := Processed (progress e) + 1\<rparr>\<rparr>"

text \<open>
  \<^verbatim>\<open>processItem\<close>: look the product up, skip it when the stored checksum is the new one,
  otherwise resolve the category and update the match or create a product. The feed's
  \<^verbatim>\<open>ImportMode\<close> is not read.
\<close>

definition processItem ::
  "GoLib \<Rightarrow> Env \<Rightarrow> ImportEngine \<Rightarrow> FeedItem \<Rightarrow> World \<Rightarrow> string option \<times> ImportEngine \<times> World"
where
  "processItem L env e item w =
     (let ((existingID, checksum), w1) = findExistingProduct env (feed e) item w;
          newChecksum = calculateChecksum L item
      in if existingID \<noteq> '''' \<and> checksum = newChecksum then (None, incSkipped e, w1)
         else
           (let (categoryID, e2, w2) =
                  (if CategoryPath item \<noteq> ''''
                   then getOrCreateCategory L env (CategoryPath item) e w1
                   else (None, e, w1))
            in if existingID \<noteq> '''' then
                 (case updateProduct env existingID item categoryID newChecksum w2 of
                    (Some err, w3) \<Rightarrow> (Some err, e2, w3)
                  | (None, w3) \<Rightarrow> (None, incUpdated e2, w3))
               else
                 (case createProduct L env e2 item categoryID newChecksum w2 of
                    (Some err, w3) \<Rightarrow> (Some err, e2, w3)
                  | (None, w3) \<Rightarrow> (None, incCreated e2, w3))))"

subsection \<open>Progress, history and feed status\<close>

definition fmt_d :: "int \<Rightarrow> string" where
  "fmt_d i = (if i < 0 then ''-'' @ itoa (nat (- i)) else itoa (nat i))"

definition updateProgress :: "string \<Rightarrow> ImportEngine \<Rightarrow> ImportEngine" where
  "updateProgress msg e =
     (let p = (progress e)\<lparr>Message := msg\<rparr>
      in e\<lparr>progress := (if Total p > 0 then p\<lparr>Percent := (Processed p * 100) div Total p\<rparr> else p)\<rparr>)"

definition updateProgressStats :: "ImportEngine \<Rightarrow> ImportEngine" where
  "updateProgressStats e =
     updateProgress (''Processing... ('' @ fmt_d (Processed (progress e)) @ ''/''
                       @ fmt_d (Total (progress e)) @ '')'') e"

text \<open>
  \<^verbatim>\<open>saveHistory\<close> is an upsert on the row's id: a new row is appended, an existing one
  takes every column but the feed, the start time and the trigger.
\<close>

definition saveHistory :: "Env \<Rightarrow> ImportHistory \<Rightarrow> World \<Rightarrow> World" where
  "saveHistory env h w =
     (if dbDown env (stmts w) then tick w
      else if list_ex (\<lambda>r. histID r = histID h) (import_history w) then
        tick (w\<lparr>import_history :=
                  map (\<lambda>r. if histID r = histID h
                            then h\<lparr>histFeedID := histFeedID r, histTriggeredBy := histTriggeredBy r\<rparr>
                            else r)
                      (import_history w)\<rparr>)
      else tick (w\<lparr>import_history := import_history w @ [h]\<rparr>))"

definition updateFeedStatus :: "Env \<Rightarrow> ImportEngine \<Rightarrow> string \<Rightarrow> string \<Rightarrow> World \<Rightarrow> World" where
  "updateFeedStatus env e status errorMsg w =
     (if dbDown env (stmts w) then tick w
      else (case feedsTable w (ID (feed e)) of
              None \<Rightarrow> tick w
            | Some row \<Rightarrow>
                tick (w\<lparr>feedsTable := (feedsTable w)(ID (feed e) \<mapsto>
                          row\<lparr>feedStatus := status,
                              LastError := (if errorMsg = '''' then None else Some errorMsg),
                              TotalProducts :=
                                int (length (filter (\<lambda>p. p_feed_id p = Some (ID (feed e)))
                                               (products w)))\<rparr>)\<rparr>)))"

definition updateCategoryCounts :: "Env \<Rightarrow> World \<Rightarrow> World" where
  "updateCategoryCounts env w =
     (if dbDown env (stmts w) then tick w
      else tick (w\<lparr>categories :=
                    map (\<lambda>c. c\<lparr>c_product_count :=
                                  int (length (filter (\<lambda>p. p_category_id p = Some (c_id c)
                                                            \<and> p_is_active p) (products w)))\<rparr>)
                        (categories w)\<rparr>))"

text \<open>
  \<^verbatim>\<open>completeImport\<close> and \<^verbatim>\<open>failImport\<close> are the only places that give a run its final
  status. They return the history row and the error of \<^verbatim>\<open>Run\<close>.
\<close>

definition completeImport ::
  "Env \<Rightarrow> ImportEngine \<Rightarrow> ImportHistory \<Rightarrow> World
     \<Rightarrow> (ImportHistory option \<times> string option) \<times> ImportEngine \<times> World"
where
  "completeImport env e history w =
     (let h = history\<lparr>histFinished := True,
                     histProcessed := Processed (progress e),
                     histCreated := Created (progress e),
                     histUpdated := Updated (progress e),
                     histSkipped := Skipped (progress e),
                     histErrors := Errors (progress e),
                     histStatus := ImportStatusCompleted\<rparr>;
          w1 = saveHistory env h w;
          w2 = updateFeedStatus env e ''active'' '''' w1;
          w3 = updateCategoryCounts env w2;
          e1 = e\<lparr>progress := (progress e)\<lparr>Status := ImportStatusCompleted\<rparr>\<rparr>;
          e2 = updateProgress ''Import completed'' e1
      in ((Some h, None), e2, w3))"

definition failImport ::
  "Env \<Rightarrow> ImportEngine \<Rightarrow> ImportHistory \<Rightarrow> string \<Rightarrow> World
     \<Rightarrow> (ImportHistory option \<times> string option) \<times> ImportEngine \<times> World"
where
  "failImport env e history errorMsg w =
     (let h = history\<lparr>histFinished := True, histStatus := ImportStatusFailed,
                     histErrorMessage := Some errorMsg\<rparr>;
          w1 = saveHistory env h w;
          w2 = updateFeedStatus env e ''error'' errorMsg w1;
          e1 = e\<lparr>progress := (progress e)\<lparr>Status := ImportStatusFailed\<rparr>\<rparr>;
          e2 = updateProgress errorMsg e1
      in ((Some h, Some errorMsg), e2, w2))"

subsection \<open>The run\<close>

text \<open>
  \<^verbatim>\<open>Stop()\<close> is called by another goroutine. In the model the flag is raised just before
  the callback that finds \<open>N\<close> items processed, for \<open>stopAfter env = Some N\<close>.
\<close>

definition stopRequest :: "Env \<Rightarrow> ImportEngine \<Rightarrow> ImportEngine" where
  "stopRequest env e =
     (if stopAfter env = Some (nat (Processed (progress e))) then e\<lparr>shouldStop := True\<rparr> else e)"

definition cancelledError :: string where
  "cancelledError = ''import cancelled''"

definition processCallback ::
  "GoLib \<Rightarrow> Env \<Rightarrow> rawItem \<Rightarrow> ImportEngine \<times> World \<Rightarrow> (string option \<times> ImportEngine \<times> World) exec"
where
  "processCallback L env item s =
     (case s of (e, w) \<Rightarrow>
        if shouldStop e then Done (Some cancelledError, (e, w))
        else
          (let e1 = incProcessed e
           in case mapItem L (feed e1) item of
                Panic \<Rightarrow> Panic
              | Done None \<Rightarrow> Done (None, (incSkipped e1, w))
              | Done (Some feedItem) \<Rightarrow>
                  if Title feedItem = '''' then Done (None, (incErrors e1, w))
                  else if isZero (Price feedItem) then Done (None, (incErrors e1, w))
                  else
                    (case processItem L env e1 feedItem w of
                       (Some err, e2, w2) \<Rightarrow> Done (None, (incErrors e2, w2))
                     | (None, e2, w2) \<Rightarrow>
                         Done (None,
                               (if Processed (progress e2) mod 50 = 0 then updateProgressStats e2
                                else e2, w2)))))"

definition countCallback :: "rawItem \<Rightarrow> int \<Rightarrow> (string option \<times> int) exec" where
  "countCallback item totalCount = Done (None, totalCount + 1)"

text \<open>The \<^verbatim>\<open>switch e.feed.FeedType\<close> of \<^verbatim>\<open>Run\<close>, used for both traversals.\<close>

definition parseFeed ::
  "GoLib \<Rightarrow> FeedParser \<Rightarrow> string \<Rightarrow> string \<Rightarrow> (rawItem \<Rightarrow> 's \<Rightarrow> (string option \<times> 's) exec) \<Rightarrow> 's
     \<Rightarrow> (string option \<times> 's) exec option"
where
  "parseFeed L p feedType data callback s =
     (if feedType = FeedTypeXML then ParseXMLFull L p data callback s
      else if feedType = FeedTypeCSV then Some (ParseCSVFull L p data callback s)
      else if feedType = FeedTypeJSON then Some (ParseJSONFull L p data callback s)
      else Some (Done (None, s)))"

definition released ::
  "(ImportHistory option \<times> string option) \<times> ImportEngine \<times> World
     \<Rightarrow> (ImportHistory option \<times> string option) \<times> ImportEngine \<times> World"
where
  "released r = (case r of (res, e, w) \<Rightarrow> (res, e\<lparr>isRunning := False\<rparr>, w))"

text \<open>
  The first block of \<^verbatim>\<open>Run\<close> after the guard: take the lock flag, draw the history id,
  set up the progress and the history row, save the row and mark the feed running.
\<close>

definition startRun :: "Env \<Rightarrow> string \<Rightarrow> ImportEngine \<Rightarrow> World \<Rightarrow> ImportEngine \<times> ImportHistory \<times> World" where
  "startRun env triggeredBy e w =
     (let e1 = e\<lparr>isRunning := True, shouldStop := False\<rparr>;
          (hid, w1) = uuid_New env w;
          e2 = e1\<lparr>historyID := hid,
                  progress := zeroProgress\<lparr>progFeedID := ID (feed e), progHistoryID := hid,
                                Status := ImportStatusRunning,
                                Message := ''Initializing import...''\<rparr>\<rparr>;
          history = \<lparr>histID = hid, histFeedID = ID (feed e), histFinished = False,
                     histTotalItems = 0, histProcessed = 0, histCreated = 0, histUpdated = 0,
                     histSkipped = 0, histErrors = 0, histStatus = ImportStatusRunning,
                     histErrorMessage = None, histTriggeredBy = triggeredBy\<rparr>;
          w2 = saveHistory env history w1;
          w3 = updateFeedStatus env e2 ''running'' '''' w2
      in (updateProgress ''Downloading feed...'' e2, history, w3))"

definition runParser :: "ImportEngine \<Rightarrow> FeedParser" where
  "runParser e =
     (NewFeedParser (FeedURL (feed e)) (FeedType (feed e)))
       \<lparr>XMLItemPath := feedXMLItemPath (feed e), CSVDelimiter := feedCSVDelimiter (feed e)\<rparr>"

text \<open>The state in which the second traversal starts, once the first has counted the items.\<close>

definition countedRun :: "int \<Rightarrow> ImportEngine \<Rightarrow> ImportEngine" where
  "countedRun totalCount e3 =
     (let e4 = updateProgress ''Parsing feed...'' e3;
          e5 = e4\<lparr>progress := (progress e4)\<lparr>Total := totalCount\<rparr>\<rparr>
      in updateProgress (''Processing '' @ fmt_d totalCount @ '' items...'') e5)"

text \<open>
  \<^verbatim>\<open>Run\<close>. The result is the pair \<^verbatim>\<open>(*ImportHistory, error)\<close> with the engine and the
  database after the call; \<open>None\<close> is a run that never returns, \<open>Some Panic\<close> one that
  panics. The deferred function clears \<^verbatim>\<open>isRunning\<close> on every return after the guard.
\<close>

definition Run ::
  "GoLib \<Rightarrow> Env \<Rightarrow> string \<Rightarrow> ImportEngine \<Rightarrow> World
     \<Rightarrow> ((ImportHistory option \<times> string option) \<times> ImportEngine \<times> World) exec option"
where
  "Run L env triggeredBy e w =
     (if isRunning e then Some (Done ((None, Some ''import already running''), e, w))
      else
        (case startRun env triggeredBy e w of (e3, history, w3) \<Rightarrow>
           (case download env of
              Inl err \<Rightarrow>
                Some (Done (released (failImport env e3 history (''Download error: '' @ err) w3)))
            | Inr feedData \<Rightarrow>
                (case parseFeed L (runParser e) (FeedType (feed e)) feedData countCallback 0 of
                   None \<Rightarrow> None
                 | Some Panic \<Rightarrow> Some Panic
                 | Some (Done (_, totalCount)) \<Rightarrow>
                     (case parseFeed L (runParser e) (FeedType (feed e)) feedData
                             (\<lambda>item (e', w'). processCallback L env item (stopRequest env e', w'))
                             (countedRun totalCount e3, w3) of
                        None \<Rightarrow> None
                      | Some Panic \<Rightarrow> Some Panic
                      | Some (Done (err, (e7, w4))) \<Rightarrow>
                          (let history1 = history\<lparr>histTotalItems := totalCount\<rparr>
                           in case err of
                                Some msg \<Rightarrow>
                                  if \<not> strings_Contains msg ''cancelled''
                                  then Some (Done (released (failImport env e7 history1 msg w4)))
                                  else Some (Done (released (completeImport env e7 history1 w4)))
                              | None \<Rightarrow>
                                  Some (Done (released (completeImport env e7 history1 w4)))))))))"

subsection \<open>The HTTP handler that starts a run\<close>

text \<open>
  \<^verbatim>\<open>Handler.StartImport\<close>: the engines in flight are kept in a map by feed id. The
  handler answers with a status code and a message; the run itself is started in a
  goroutine of its own and is not part of the handler's result.
\<close>

record Handler =
  importEngines :: "string \<rightharpoonup> ImportEngine"

definition StartImport :: "Env \<Rightarrow> string \<Rightarrow> Handler \<Rightarrow> World \<Rightarrow> (nat \<times> string) \<times> Handler \<times> World" where
  "StartImport env feedID h w =
     (case (if dbDown env (stmts w) then None else feedsTable w feedID) of
        None \<Rightarrow> ((404, ''Feed not found''), h, tick w)
      | Some f \<Rightarrow>
          (case importEngines h feedID of
             Some _ \<Rightarrow> ((409, ''Import already running''), h, tick w)
           | None \<Rightarrow>
               ((200, ''started''),
                h\<lparr>importEngines := (importEngines h)(feedID \<mapsto> NewImportEngine f)\<rparr>, tick w)))"

section \<open>Predicates of the specification\<close>

text \<open>The counter equation of a run: every processed item has exactly one outcome.\<close>

definition accounted :: "ImportEngine \<Rightarrow> bool" where
  "accounted e =
     (Processed (progress e)
        = Created (progress e) + Updated (progress e) + Skipped (progress e) + Errors (progress e))"

text \<open>
  The token loop run for at most \<open>k\<close> turns: \<open>None\<close> when it has not returned by then.
  The loop returns a result exactly when some number of turns gives it.
\<close>

fun xmlFuel ::
  "nat \<Rightarrow> GoLib \<Rightarrow> string \<Rightarrow> (nat \<Rightarrow> xmlResult) \<Rightarrow> (rawItem \<Rightarrow> 's \<Rightarrow> (string option \<times> 's) exec)
     \<Rightarrow> nat \<Rightarrow> XmlState \<Rightarrow> 's \<Rightarrow> (string option \<times> 's) exec option"
where
  "xmlFuel 0 L path toks cb n x s = None"
| "xmlFuel (Suc k) L path toks cb n x s =
     (case toks n of
        TokEOF \<Rightarrow> Some (Done (None, s))
      | TokErr \<Rightarrow> xmlFuel k L path toks cb (n + 1) x s
      | Tok t \<Rightarrow>
          (case xmlStep L path t x of
             (x', None) \<Rightarrow> xmlFuel k L path toks cb (n + 1) x' s
           | (x', Some item) \<Rightarrow>
               (case cb item s of
                  Panic \<Rightarrow> Some Panic
                | Done (Some err, s') \<Rightarrow> Some (Done (Some err, s'))
                | Done (None, s') \<Rightarrow> xmlFuel k L path toks cb (n + 1) x' s')))"

section \<open>Concrete libraries and inputs\<close>

text \<open>
  An instance of the library parameters, used where a statement is evaluated at a concrete
  input. The CSV lexer is the one for text without quotes (lines, cut at the comma, empty
  lines skipped); the number parser reads plain decimals, and agrees with
  \<^verbatim>\<open>strconv.ParseFloat\<close> on the texts whose value a \<^verbatim>\<open>float64\<close> holds exactly; the
  digest is a parameter of the instance.
\<close>

definition plainCSV :: "char \<Rightarrow> string \<Rightarrow> string + string list list" where
  "plainCSV comma data =
     Inr (map (\<lambda>line. strings_Split line [comma])
            (filter (\<lambda>line. line \<noteq> []) (strings_Split data [CHR 0x0A])))"

definition isDigit :: "char \<Rightarrow> bool" where
  "isDigit c = (48 \<le> (of_char c :: nat) \<and> (of_char c :: nat) \<le> 57)"

definition digitsValue :: "string \<Rightarrow> nat" where
  "digitsValue s = foldl (\<lambda>n c. 10 * n + (of_char c - 48)) 0 s"

definition plainFloat :: "string \<Rightarrow> float64" where
  "plainFloat s =
     (case strings_Split s ''.'' of
        [i] \<Rightarrow> if i \<noteq> [] \<and> list_all isDigit i then Finite (of_nat (digitsValue i)) else Finite 0
      | [i, f] \<Rightarrow>
          if (i \<noteq> [] \<or> f \<noteq> []) \<and> list_all isDigit i \<and> list_all isDigit f
          then Finite (of_nat (digitsValue (i @ f)) / 10 ^ length f) else Finite 0
      | _ \<Rightarrow> Finite 0)"

definition plainLib :: "(string \<Rightarrow> string) \<Rightarrow> GoLib" where
  "plainLib digest =
     \<lparr>md5hex = digest, unicodeLower = (\<lambda>s. s), unicodeUpper = (\<lambda>s. s),
      unicodeEqualFold = (\<lambda>s t. s = t), regexpCompile = (\<lambda>pat. None),
      parseFloat = plainFloat, atoi = (\<lambda>s. int (digitsValue s)), fmtV = (\<lambda>v. ''''),
      xmlDecoder = (\<lambda>data n. TokEOF), csvLex = plainCSV,
      jsonUnmarshal = (\<lambda>data. Inl ''invalid character'')\<rparr>"

text \<open>
  An identifier source whose \<open>n\<close>-th identifier starts with \<open>n\<close> in eight digits, and
  an environment with it: the database answers every statement, the download returns the
  given bytes, and \<^verbatim>\<open>Stop()\<close> is called as given.
\<close>

definition uuidOf :: "nat \<Rightarrow> string" where
  "uuidOf n = replicate (8 - length (itoa n)) (CHR ''0'') @ itoa n @ ''-0000-4000-8000-000000000000''"

definition plainEnv :: "string \<Rightarrow> nat option \<Rightarrow> Env" where
  "plainEnv body stop =
     \<lparr>uuidNew = uuidOf, dbDown = (\<lambda>n. False), download = Inr body, stopAfter = stop\<rparr>"

definition emptyWorld :: World where
  "emptyWorld =
     \<lparr>products = [], categories = [], feedsTable = Map.empty, import_history = [],
      stmts = 0, uuids = 0\<rparr>"

definition widget :: FeedItem where
  "widget = emptyItem\<lparr>Title := ''Widget'', EAN := ''8590000000017'', Price := Finite 1\<rparr>"

text \<open>
  A feed matched by EAN with no field mappings, and a catalog holding one product made from
  \<open>widget\<close> with a given stored fingerprint.
\<close>

definition shopFeed :: "string \<Rightarrow> string \<Rightarrow> Feed" where
  "shopFeed feedType mode =
     \<lparr>ID = ''feed-1'', Name = ''Demo'', FeedURL = ''http://feeds.example/demo'',
      FeedType = feedType, feedXMLItemPath = ''SHOPITEM'', feedCSVDelimiter = '';'',
      ImportMode = mode, MatchBy = MatchByEAN, FieldMappings = [],
      feedStatus = ''active'', LastError = None, TotalProducts = 0\<rparr>"

definition storedWidget :: "string \<Rightarrow> product" where
  "storedWidget checksum =
     \<lparr>p_id = ''p-1'', p_slug = ''widget-0a1b2c3d'', p_item = widget, p_category_id = None,
      p_feed_id = Some ''feed-1'', p_checksum = checksum, p_is_active = True\<rparr>"

definition catalogWith :: "product list \<Rightarrow> World" where
  "catalogWith ps = emptyWorld\<lparr>products := ps\<rparr>"

text \<open>A CSV feed body with a header line and two items.\<close>

definition demoCSV :: string where
  "demoCSV = ''title;price'' @ [CHR 0x0A] @ ''Widget;1'' @ [CHR 0x0A] @ ''Gadget;2'' @ [CHR 0x0A]"

text \<open>
  The category rows two successive runs over the path \<^verbatim>\<open>Electronics|Phones|Smartphones\<close>
  leave in an empty catalog, and the database after \<open>k\<close> such runs.
\<close>

definition catRow :: "nat \<Rightarrow> string \<Rightarrow> string \<Rightarrow> string option \<Rightarrow> category" where
  "catRow n name slug parent =
     \<lparr>c_id = uuidOf n, c_name = name, c_slug = slug, c_parent_id = parent,
      c_product_count = 0, c_is_active = True\<rparr>"

definition firstRunRows :: "category list" where
  "firstRunRows =
     [catRow 1 ''Electronics'' ''electronics-00000000'' None,
      catRow 3 ''Phones'' ''phones-00000002'' (Some (uuidOf 1)),
      catRow 5 ''Smartphones'' ''smartphones-00000004'' (Some (uuidOf 3))]"

definition secondRunRows :: "category list" where
  "secondRunRows =
     [catRow 7 ''Electronics'' ''electronics-00000006'' None,
      catRow 9 ''Phones'' ''phones-00000008'' (Some (uuidOf 7)),
      catRow 11 ''Smartphones'' ''smartphones-00000010'' (Some (uuidOf 9))]"

definition afterRuns :: "nat \<Rightarrow> World" where
  "afterRuns k =
     emptyWorld\<lparr>uuids := 6 * k, categories := concat (take k [firstRunRows, secondRunRows]),
                stmts := 6 * k\<rparr>"

section \<open>Properties\<close>

subsection \<open>Splitting a category path\<close>

lemma splitFuel_nonempty: "splitFuel n s sep \<noteq> []"
  by (cases n) (auto split: option.splits)

lemma strings_Split_nonempty: "sep \<noteq> [] \<Longrightarrow> strings_Split s sep \<noteq> []"
  by (simp add: strings_Split_def splitFuel_nonempty)

text \<open>
  C5. The claim: the path is split on the first of \<^verbatim>\<open>|\<close>, \<^verbatim>\<open> > \<close>, \<^verbatim>\<open>/\<close> that gives
  more than one segment, so a path with \<^verbatim>\<open> > \<close> and no \<^verbatim>\<open>|\<close> is split at \<^verbatim>\<open> > \<close>,
  and one with only \<^verbatim>\<open>/\<close> at \<^verbatim>\<open>/\<close>. The code falls back only when the split at
  \<^verbatim>\<open>|\<close> has no parts, which never happens: every path is split at \<^verbatim>\<open>|\<close> alone, and
  \<^verbatim>\<open>Clothing > Shoes\<close> and \<^verbatim>\<open>Home/Garden\<close> stay one segment each.
\<close>

theorem categoryParts_splits_at_pipe_only:
  "categoryParts path = strings_Split path ''|''
   \<and> categoryParts ''Clothing > Shoes'' = [''Clothing > Shoes'']
   \<and> categoryParts ''Home/Garden'' = [''Home/Garden'']"
proof -
  have pipe: "categoryParts p = strings_Split p ''|''" for p
    using strings_Split_nonempty [of "''|''" p] by (simp add: categoryParts_def Let_def)
  have "strings_Split ''Clothing > Shoes'' ''|'' = [''Clothing > Shoes'']"
    by (simp add: strings_Split_def)
  moreover have "strings_Split ''Home/Garden'' ''|'' = [''Home/Garden'']"
    by (simp add: strings_Split_def)
  ultimately show ?thesis by (simp add: pipe)
qed

subsection \<open>The fingerprint\<close>

lemma fmt_2f_one: "fmt_2f (Finite 1) = ''1.00''"
  by code_simp

lemma fmt_2f_one_and_a_bit: "fmt_2f (Finite (513 / 512)) = ''1.00''"
  by code_simp

lemma fmt_2f_two: "fmt_2f (Finite 2) = ''2.00''"
  by code_simp

text \<open>
  C6, as stated: equal fields give equal fingerprints, and changing any single one of the
  six fields changes the fingerprint. The second half fails for the price, which enters
  the digest rounded to two decimals: the prices 1 and 1.001953125 (both exact
  \<^verbatim>\<open>float64\<close> values) give the same fingerprint whatever the digest function is.
\<close>

theorem calculateChecksum_price_counterexample:
  "Price (widget\<lparr>Price := Finite (513 / 512)\<rparr>) \<noteq> Price widget
   \<and> (\<forall>L. calculateChecksum L (widget\<lparr>Price := Finite (513 / 512)\<rparr>) = calculateChecksum L widget)"
  by (simp add: widget_def calculateChecksum_def checksumData_def fmt_2f_one fmt_2f_one_and_a_bit
        del: fmt_2f.simps)

text \<open>
  C6, amended. The fingerprint is the digest of the text
  \<^verbatim>\<open>title|description|EAN|price|image|category\<close> with the price printed by \<^verbatim>\<open>%.2f\<close>.
  Items that agree on the five strings and on the printed price have equal fingerprints.
  Changing one of title, description, EAN, image URL or category path alone, or the price
  to one that prints differently, changes the digested text (so the fingerprints can only
  agree where the digest collides).
\<close>

theorem calculateChecksum_fields:
  "calculateChecksum L a = md5hex L (checksumData a)
   \<and> (Title a = Title b \<and> Description a = Description b \<and> EAN a = EAN b
        \<and> fmt_2f (Price a) = fmt_2f (Price b) \<and> ImageURL a = ImageURL b
        \<and> CategoryPath a = CategoryPath b
      \<longrightarrow> calculateChecksum L a = calculateChecksum L b)
   \<and> (t \<noteq> Title a \<longrightarrow> checksumData (a\<lparr>Title := t\<rparr>) \<noteq> checksumData a)
   \<and> (t \<noteq> Description a \<longrightarrow> checksumData (a\<lparr>Description := t\<rparr>) \<noteq> checksumData a)
   \<and> (t \<noteq> EAN a \<longrightarrow> checksumData (a\<lparr>EAN := t\<rparr>) \<noteq> checksumData a)
   \<and> (t \<noteq> ImageURL a \<longrightarrow> checksumData (a\<lparr>ImageURL := t\<rparr>) \<noteq> checksumData a)
   \<and> (t \<noteq> CategoryPath a \<longrightarrow> checksumData (a\<lparr>CategoryPath := t\<rparr>) \<noteq> checksumData a)
   \<and> (fmt_2f p \<noteq> fmt_2f (Price a) \<longrightarrow> checksumData (a\<lparr>Price := p\<rparr>) \<noteq> checksumData a)"
  by (simp add: calculateChecksum_def checksumData_def del: fmt_2f.simps)

theorem calculateChecksum_fields_witness:
  "''Gadget'' \<noteq> Title widget
   \<and> checksumData (widget\<lparr>Title := ''Gadget''\<rparr>) \<noteq> checksumData widget
   \<and> ''Gadget'' \<noteq> Description widget
   \<and> checksumData (widget\<lparr>Description := ''Gadget''\<rparr>) \<noteq> checksumData widget
   \<and> ''Gadget'' \<noteq> EAN widget
   \<and> checksumData (widget\<lparr>EAN := ''Gadget''\<rparr>) \<noteq> checksumData widget
   \<and> ''Gadget'' \<noteq> ImageURL widget
   \<and> checksumData (widget\<lparr>ImageURL := ''Gadget''\<rparr>) \<noteq> checksumData widget
   \<and> ''Gadget'' \<noteq> CategoryPath widget
   \<and> checksumData (widget\<lparr>CategoryPath := ''Gadget''\<rparr>) \<noteq> checksumData widget
   \<and> fmt_2f (Finite 2) \<noteq> fmt_2f (Price widget)
   \<and> checksumData (widget\<lparr>Price := Finite 2\<rparr>) \<noteq> checksumData widget
   \<and> fmt_2f (Price (widget\<lparr>Price := Finite (513 / 512)\<rparr>)) = fmt_2f (Price widget)
   \<and> calculateChecksum (plainLib (\<lambda>s. s)) (widget\<lparr>Price := Finite (513 / 512)\<rparr>)
       = calculateChecksum (plainLib (\<lambda>s. s)) widget"
proof -
  have strings: "''Gadget'' \<noteq> Title widget" "''Gadget'' \<noteq> Description widget"
    "''Gadget'' \<noteq> EAN widget" "''Gadget'' \<noteq> ImageURL widget" "''Gadget'' \<noteq> CategoryPath widget"
    by (simp_all add: widget_def emptyItem_def)
  have price: "fmt_2f (Finite 2) \<noteq> fmt_2f (Price widget)"
    by (simp add: widget_def fmt_2f_one fmt_2f_two del: fmt_2f.simps)
  have same: "fmt_2f (Price (widget\<lparr>Price := Finite (513 / 512)\<rparr>)) = fmt_2f (Price widget)"
    by (simp add: widget_def fmt_2f_one fmt_2f_one_and_a_bit del: fmt_2f.simps)
  have rest: "Title (widget\<lparr>Price := Finite (513 / 512)\<rparr>) = Title widget"
    "Description (widget\<lparr>Price := Finite (513 / 512)\<rparr>) = Description widget"
    "EAN (widget\<lparr>Price := Finite (513 / 512)\<rparr>) = EAN widget"
    "ImageURL (widget\<lparr>Price := Finite (513 / 512)\<rparr>) = ImageURL widget"
    "CategoryPath (widget\<lparr>Price := Finite (513 / 512)\<rparr>) = CategoryPath widget"
    by simp_all
  show ?thesis
    using calculateChecksum_fields
      [of "plainLib (\<lambda>s. s)" "widget\<lparr>Price := Finite (513 / 512)\<rparr>" widget "''Gadget''" "Finite 2"]
      calculateChecksum_fields [of "plainLib (\<lambda>s. s)" widget widget "''Gadget''" "Finite 2"]
      strings price same rest
    by blast
qed

subsection \<open>The database is only read by the lookup\<close>

lemma queryProduct_world: "queryProduct env cond w = (r, w1) \<Longrightarrow> w1 = tick w"
  by (auto simp: queryProduct_def split: if_splits option.splits)

lemma findExistingProduct_world:
  "findExistingProduct env f item w = (r, w1) \<Longrightarrow> w1 = w \<or> w1 = tick w"
  by (auto simp: findExistingProduct_def split: if_splits dest: queryProduct_world)

lemma findExistingProduct_found:
  "findExistingProduct env f item w = ((pid, cs), w1) \<Longrightarrow> pid \<noteq> '''' \<Longrightarrow> w1 = tick w"
  by (auto simp: findExistingProduct_def split: if_splits dest: queryProduct_world)

lemma uuid_New_same: "uuid_New env w = (u, w') \<Longrightarrow> products w' = products w \<and> categories w' = categories w"
  by (auto simp: uuid_New_def)

lemma generateSlug_products: "generateSlug L env t w = (s, w') \<Longrightarrow> products w' = products w"
  by (auto simp: generateSlug_def uuid_New_def Let_def split: prod.splits)

lemma resolveParts_products:
  "resolveParts L env parts parent lastID w = (r, w') \<Longrightarrow> products w' = products w"
proof (induction parts arbitrary: parent lastID w)
  case Nil
  then show ?case by simp
next
  case (Cons part parts)
  show ?case
  proof (cases "strings_TrimSpace part = ''''")
    case True
    with Cons show ?thesis by simp
  next
    case False
    obtain slug w1 where g: "generateSlug L env (strings_TrimSpace part) w = (slug, w1)"
      by (cases "generateSlug L env (strings_TrimSpace part) w")
    obtain found w2 where q: "queryCategory env slug parent w1 = (found, w2)"
      by (cases "queryCategory env slug parent w1")
    have p1: "products w1 = products w" using g by (rule generateSlug_products)
    have p2: "products w2 = products w1"
      using q by (auto simp: queryCategory_def tick_def split: if_splits)
    show ?thesis
    proof (cases found)
      case None
      obtain cid w3 where u: "uuid_New env w2 = (cid, w3)" by (cases "uuid_New env w2")
      let ?c = "\<lparr>c_id = cid, c_name = strings_TrimSpace part, c_slug = slug,
                  c_parent_id = parent, c_product_count = 0, c_is_active = True\<rparr>"
      have p3: "products (insertCategory env ?c w3) = products w"
        using u p1 p2 by (auto simp: insertCategory_def tick_def uuid_New_def)
      from Cons.prems False g q None u
      have "resolveParts L env parts (if cid \<noteq> '''' then Some cid else parent)
              (if cid \<noteq> '''' then cid else lastID) (insertCategory env ?c w3) = (r, w')"
        by (simp add: Let_def split: if_splits)
      from Cons.IH [OF this] p3 show ?thesis by simp
    next
      case (Some cid)
      from Cons.prems False g q Some
      have "resolveParts L env parts (if cid \<noteq> '''' then Some cid else parent)
              (if cid \<noteq> '''' then cid else lastID) w2 = (r, w')"
        by (simp add: Let_def split: if_splits)
      from Cons.IH [OF this] p1 p2 show ?thesis by simp
    qed
  qed
qed

lemma getOrCreateCategory_frame:
  "getOrCreateCategory L env path e w = (c, e', w')
     \<Longrightarrow> products w' = products w \<and> progress e' = progress e \<and> feed e' = feed e
         \<and> shouldStop e' = shouldStop e \<and> isRunning e' = isRunning e"
  by (auto simp: getOrCreateCategory_def Let_def split: if_splits option.splits prod.splits
        dest: resolveParts_products)

lemma find_widget:
  "findExistingProduct (plainEnv '''' None) (shopFeed FeedTypeCSV mode) (widget\<lparr>Price := p\<rparr>)
     (catalogWith [storedWidget cs]) = ((''p-1'', cs), tick (catalogWith [storedWidget cs]))"
  by (simp add: findExistingProduct_def shopFeed_def MatchByEAN_def queryProduct_def plainEnv_def
        catalogWith_def emptyWorld_def storedWidget_def widget_def)

text \<open>
  C3. When the product found by the feed's match field carries the fingerprint computed for
  the item, \<^verbatim>\<open>processItem\<close> returns no error, adds one to the skipped counter and to
  nothing else of the engine, and leaves the database as it was but for the one
  \<^verbatim>\<open>SELECT\<close> it sent: no product, category, feed or history row changes and no identifier
  is drawn. The feed of the engine is arbitrary, and so is its import mode.
\<close>

theorem processItem_unchanged_is_skipped:
  assumes "findExistingProduct env (feed e) item w = ((existingID, checksum), w1)"
    and "existingID \<noteq> ''''"
    and "checksum = calculateChecksum L item"
  shows "processItem L env e item w
           = (None, e\<lparr>progress := (progress e)\<lparr>Skipped := Skipped (progress e) + 1\<rparr>\<rparr>,
              w\<lparr>stmts := stmts w + 1\<rparr>)"
  using assms findExistingProduct_found [OF assms(1) assms(2)]
  by (simp add: processItem_def incSkipped_def tick_def)

theorem processItem_unchanged_is_skipped_witness:
  "findExistingProduct (plainEnv '''' None) (feed (NewImportEngine (shopFeed FeedTypeCSV ImportModeUpdateOnly))) widget
      (catalogWith [storedWidget (calculateChecksum (plainLib (\<lambda>s. s)) widget)])
     = ((''p-1'', calculateChecksum (plainLib (\<lambda>s. s)) widget),
        tick (catalogWith [storedWidget (calculateChecksum (plainLib (\<lambda>s. s)) widget)]))
   \<and> ''p-1'' \<noteq> ''''
   \<and> Skipped (progress (fst (snd (processItem (plainLib (\<lambda>s. s)) (plainEnv '''' None)
        (NewImportEngine (shopFeed FeedTypeCSV ImportModeUpdateOnly)) widget
        (catalogWith [storedWidget (calculateChecksum (plainLib (\<lambda>s. s)) widget)]))))) = 1
   \<and> products (snd (snd (processItem (plainLib (\<lambda>s. s)) (plainEnv '''' None)
        (NewImportEngine (shopFeed FeedTypeCSV ImportModeUpdateOnly)) widget
        (catalogWith [storedWidget (calculateChecksum (plainLib (\<lambda>s. s)) widget)]))))
      = [storedWidget (calculateChecksum (plainLib (\<lambda>s. s)) widget)]"
proof -
  let ?L = "plainLib (\<lambda>s. s)"
  let ?w = "catalogWith [storedWidget (calculateChecksum ?L widget)]"
  let ?e = "NewImportEngine (shopFeed FeedTypeCSV ImportModeUpdateOnly)"
  have f: "findExistingProduct (plainEnv '''' None) (feed ?e) widget ?w
             = ((''p-1'', calculateChecksum ?L widget), tick ?w)"
    using find_widget [of ImportModeUpdateOnly "Finite 1" "calculateChecksum ?L widget"]
    by (simp add: NewImportEngine_def widget_def)
  have n: "''p-1'' \<noteq> ''''" by simp
  from processItem_unchanged_is_skipped [OF f n refl] f n
  show ?thesis
    by (simp add: NewImportEngine_def zeroProgress_def catalogWith_def)
qed

subsection \<open>Counters\<close>

lemma createProduct_products:
  "createProduct L env e item cat cs w = (r, w')
     \<Longrightarrow> (r = None \<longrightarrow> length (products w') = length (products w) + 1)
         \<and> (r \<noteq> None \<longrightarrow> products w' = products w)"
  by (auto simp: createProduct_def generateSlug_def uuid_New_def tick_def Let_def
        split: prod.splits if_splits)

lemma processItem_unfold:
  assumes "findExistingProduct env (feed e) item w = ((pid, cs), w1)"
    and "(if CategoryPath item \<noteq> '''' then getOrCreateCategory L env (CategoryPath item) e w1
          else (None, e, w1)) = (cat, e2, w2)"
  shows "processItem L env e item w =
     (if pid \<noteq> '''' \<and> cs = calculateChecksum L item then (None, incSkipped e, w1)
      else if pid \<noteq> '''' then
        (case updateProduct env pid item cat (calculateChecksum L item) w2 of
           (Some err, w3) \<Rightarrow> (Some err, e2, w3)
         | (None, w3) \<Rightarrow> (None, incUpdated e2, w3))
      else
        (case createProduct L env e2 item cat (calculateChecksum L item) w2 of
           (Some err, w3) \<Rightarrow> (Some err, e2, w3)
         | (None, w3) \<Rightarrow> (None, incCreated e2, w3)))"
  using assms by (simp add: processItem_def Let_def split del: if_split cong del: if_weak_cong)

lemma processItem_progress:
  assumes "processItem L env e item w = (r, e', w')"
  shows "(r \<noteq> None \<and> progress e' = progress e)
       \<or> (r = None \<and> progress e' = (progress e)\<lparr>Skipped := Skipped (progress e) + 1\<rparr>)
       \<or> (r = None \<and> progress e' = (progress e)\<lparr>Updated := Updated (progress e) + 1\<rparr>)
       \<or> (r = None \<and> progress e' = (progress e)\<lparr>Created := Created (progress e) + 1\<rparr>)"
proof -
  obtain pid cs w1 where f: "findExistingProduct env (feed e) item w = ((pid, cs), w1)"
    by (cases "findExistingProduct env (feed e) item w") auto
  obtain cat e2 w2 where g:
    "(if CategoryPath item \<noteq> '''' then getOrCreateCategory L env (CategoryPath item) e w1
      else (None, e, w1)) = (cat, e2, w2)"
    by (metis prod_cases3)
  have pe: "progress e2 = progress e"
  proof (cases "CategoryPath item \<noteq> ''''")
    case True
    with g have "getOrCreateCategory L env (CategoryPath item) e w1 = (cat, e2, w2)" by simp
    then show ?thesis by (simp add: getOrCreateCategory_frame)
  next
    case False
    with g show ?thesis by simp
  qed
  note un = processItem_unfold [OF f g]
  consider (skip) "pid \<noteq> '''' \<and> cs = calculateChecksum L item"
    | (upd) "\<not> (pid \<noteq> '''' \<and> cs = calculateChecksum L item)" "pid \<noteq> ''''"
    | (cre) "\<not> (pid \<noteq> '''' \<and> cs = calculateChecksum L item)" "\<not> pid \<noteq> ''''"
    by blast
  then show ?thesis
  proof cases
    case skip
    with un assms have "r = None" "e' = incSkipped e" by simp_all
    then show ?thesis by (simp add: incSkipped_def)
  next
    case upd
    obtain ru wu where u: "updateProduct env pid item cat (calculateChecksum L item) w2 = (ru, wu)"
      by (cases "updateProduct env pid item cat (calculateChecksum L item) w2")
    show ?thesis
    proof (cases ru)
      case None
      with un assms upd u have "r = None" "e' = incUpdated e2" by simp_all
      then show ?thesis using pe by (simp add: incUpdated_def)
    next
      case (Some msg)
      with un assms upd u have "r = Some msg" "e' = e2" by simp_all
      then show ?thesis using pe by simp
    qed
  next
    case cre
    obtain rc wc where c: "createProduct L env e2 item cat (calculateChecksum L item) w2 = (rc, wc)"
      by (cases "createProduct L env e2 item cat (calculateChecksum L item) w2")
    show ?thesis
    proof (cases rc)
      case None
      with un assms cre c have "r = None" "e' = incCreated e2" by simp_all
      then show ?thesis using pe by (simp add: incCreated_def)
    next
      case (Some msg)
      with un assms cre c have "r = Some msg" "e' = e2" by simp_all
      then show ?thesis using pe by simp
    qed
  qed
qed

lemma updateProgress_counters:
  "Processed (progress (updateProgress m e)) = Processed (progress e)"
  "Created (progress (updateProgress m e)) = Created (progress e)"
  "Updated (progress (updateProgress m e)) = Updated (progress e)"
  "Skipped (progress (updateProgress m e)) = Skipped (progress e)"
  "Errors (progress (updateProgress m e)) = Errors (progress e)"
  by (simp_all add: updateProgress_def Let_def)

lemma processCallback_running:
  "\<not> shouldStop e \<Longrightarrow>
   processCallback L env item (e, w) =
     (case mapItem L (feed e) item of
        Panic \<Rightarrow> Panic
      | Done None \<Rightarrow> Done (None, (incSkipped (incProcessed e), w))
      | Done (Some feedItem) \<Rightarrow>
          if Title feedItem = '''' then Done (None, (incErrors (incProcessed e), w))
          else if isZero (Price feedItem) then Done (None, (incErrors (incProcessed e), w))
          else
            (case processItem L env (incProcessed e) feedItem w of
               (Some err, e2, w2) \<Rightarrow> Done (None, (incErrors e2, w2))
             | (None, e2, w2) \<Rightarrow>
                 Done (None,
                       (if Processed (progress e2) mod 50 = 0 then updateProgressStats e2
                        else e2, w2))))"
  by (simp add: processCallback_def Let_def incProcessed_def split del: if_split
        cong del: if_weak_cong split: exec.split option.split)

lemma processCallback_step:
  assumes "processCallback L env item (e, w) = Done (err, (e', w'))"
    and "\<not> shouldStop e"
  shows "err = None
     \<and> Processed (progress e') = Processed (progress e) + 1
     \<and> (  (Created (progress e') = Created (progress e) + 1 \<and> Updated (progress e') = Updated (progress e)
            \<and> Skipped (progress e') = Skipped (progress e) \<and> Errors (progress e') = Errors (progress e))
         \<or> (Created (progress e') = Created (progress e) \<and> Updated (progress e') = Updated (progress e) + 1
            \<and> Skipped (progress e') = Skipped (progress e) \<and> Errors (progress e') = Errors (progress e))
         \<or> (Created (progress e') = Created (progress e) \<and> Updated (progress e') = Updated (progress e)
            \<and> Skipped (progress e') = Skipped (progress e) + 1 \<and> Errors (progress e') = Errors (progress e))
         \<or> (Created (progress e') = Created (progress e) \<and> Updated (progress e') = Updated (progress e)
            \<and> Skipped (progress e') = Skipped (progress e) \<and> Errors (progress e') = Errors (progress e) + 1))"
proof -
  note run = processCallback_running [OF assms(2), of L env item w]
  show ?thesis
  proof (cases "mapItem L (feed e) item")
    case Panic
    with run assms(1) show ?thesis by simp
  next
    case (Done m)
    show ?thesis
    proof (cases m)
      case None
      with Done run assms(1) have "err = None" "e' = incSkipped (incProcessed e)" by simp_all
      then show ?thesis by (simp add: incProcessed_def incSkipped_def)
    next
      case (Some fi)
      show ?thesis
      proof (cases "Title fi = '''' \<or> isZero (Price fi)")
        case True
        with Some Done run assms(1) have "err = None" "e' = incErrors (incProcessed e)"
          by (auto split: if_splits)
        then show ?thesis by (simp add: incProcessed_def incErrors_def)
      next
        case False
        obtain r e2 w2 where p: "processItem L env (incProcessed e) fi w = (r, e2, w2)"
          by (metis prod_cases3)
        note pp = processItem_progress [OF p]
        have base: "Processed (progress (incProcessed e)) = Processed (progress e) + 1"
          "Created (progress (incProcessed e)) = Created (progress e)"
          "Updated (progress (incProcessed e)) = Updated (progress e)"
          "Skipped (progress (incProcessed e)) = Skipped (progress e)"
          "Errors (progress (incProcessed e)) = Errors (progress e)"
          by (simp_all add: incProcessed_def)
        show ?thesis
        proof (cases r)
          case None
          with p False Some Done run assms(1)
          have e': "e' = (if Processed (progress e2) mod 50 = 0 then updateProgressStats e2 else e2)"
            and "err = None"
            by simp_all
          have same: "Processed (progress e') = Processed (progress e2)"
            "Created (progress e') = Created (progress e2)"
            "Updated (progress e') = Updated (progress e2)"
            "Skipped (progress e') = Skipped (progress e2)"
            "Errors (progress e') = Errors (progress e2)"
            unfolding e' by (simp_all add: updateProgressStats_def updateProgress_counters)
          from pp None consider
              "progress e2 = (progress (incProcessed e))\<lparr>Skipped := Skipped (progress (incProcessed e)) + 1\<rparr>"
            | "progress e2 = (progress (incProcessed e))\<lparr>Updated := Updated (progress (incProcessed e)) + 1\<rparr>"
            | "progress e2 = (progress (incProcessed e))\<lparr>Created := Created (progress (incProcessed e)) + 1\<rparr>"
            by blast
          then show ?thesis
            by cases (simp_all add: same base \<open>err = None\<close>)
        next
          case (Some msg)
          with p False \<open>m = Some fi\<close> Done run assms(1)
          have "e' = incErrors e2" and "err = None" by simp_all
          moreover from pp Some have "progress e2 = progress (incProcessed e)" by simp
          ultimately show ?thesis by (simp add: incErrors_def base)
        qed
      qed
    qed
  qed
qed

subsection \<open>The import mode\<close>

lemma findExistingProduct_products:
  "findExistingProduct env f item w = (r, w1) \<Longrightarrow> products w1 = products w"
  by (auto simp: tick_def dest: findExistingProduct_world)

lemma category_step_frame:
  assumes "(if CategoryPath item \<noteq> '''' then getOrCreateCategory L env (CategoryPath item) e w1
            else (None, e, w1)) = (cat, e2, w2)"
  shows "products w2 = products w1 \<and> progress e2 = progress e \<and> feed e2 = feed e"
proof (cases "CategoryPath item \<noteq> ''''")
  case True
  with assms have "getOrCreateCategory L env (CategoryPath item) e w1 = (cat, e2, w2)" by simp
  then show ?thesis by (simp add: getOrCreateCategory_frame)
next
  case False
  with assms show ?thesis by simp
qed

lemma find_nothing:
  "findExistingProduct (plainEnv body stop) (shopFeed feedType mode) widget emptyWorld
     = (('''', ''''), tick emptyWorld)"
  by (simp add: findExistingProduct_def shopFeed_def MatchByEAN_def queryProduct_def plainEnv_def
        emptyWorld_def widget_def)

lemma widget_checksums_differ:
  "calculateChecksum (plainLib (\<lambda>s. s)) widget
     \<noteq> calculateChecksum (plainLib (\<lambda>s. s)) (widget\<lparr>Price := Finite 2\<rparr>)"
  by (simp add: calculateChecksum_def plainLib_def checksumData_def widget_def fmt_2f_one fmt_2f_two
        del: fmt_2f.simps)

text \<open>
  C2. The claim: in mode \<^verbatim>\<open>create_only\<close> an item that matches a product with another
  fingerprint is counted skipped and nothing is updated, and in mode \<^verbatim>\<open>update_only\<close> an
  item without a match is counted skipped and nothing is created. \<^verbatim>\<open>processItem\<close> never
  reads the mode. With the database answering, the \<^verbatim>\<open>create_only\<close> item is counted
  updated and the matched row takes the item's columns and its new fingerprint; the
  \<^verbatim>\<open>update_only\<close> item is counted created and the product table grows by one row. The
  skipped counter stays as it was in both.
\<close>

theorem processItem_ignores_import_mode:
  "(ImportMode (feed e) = ImportModeCreateOnly
      \<and> findExistingProduct env (feed e) item w = ((pid, cs), w1)
      \<and> pid \<noteq> '''' \<and> cs \<noteq> calculateChecksum L item \<and> (\<forall>n. \<not> dbDown env n)
      \<and> processItem L env e item w = (r, e', w')
    \<longrightarrow> r = None
        \<and> Updated (progress e') = Updated (progress e) + 1
        \<and> Skipped (progress e') = Skipped (progress e)
        \<and> (\<exists>cat. products w' =
              map (\<lambda>p. if p_id p = pid
                        then p\<lparr>p_item := (storedItem item)\<lparr>MPN := MPN (p_item p)\<rparr>,
                               p_category_id := cat, p_checksum := calculateChecksum L item\<rparr>
                        else p) (products w)))
   \<and> (ImportMode (feed e) = ImportModeUpdateOnly
      \<and> findExistingProduct env (feed e) item w = (('''', cs), w1)
      \<and> (\<forall>n. \<not> dbDown env n)
      \<and> processItem L env e item w = (r, e', w')
    \<longrightarrow> r = None
        \<and> Created (progress e') = Created (progress e) + 1
        \<and> Skipped (progress e') = Skipped (progress e)
        \<and> length (products w') = length (products w) + 1)"
proof (intro conjI impI)
  assume a: "ImportMode (feed e) = ImportModeCreateOnly
      \<and> findExistingProduct env (feed e) item w = ((pid, cs), w1)
      \<and> pid \<noteq> '''' \<and> cs \<noteq> calculateChecksum L item \<and> (\<forall>n. \<not> dbDown env n)
      \<and> processItem L env e item w = (r, e', w')"
  then have f: "findExistingProduct env (feed e) item w = ((pid, cs), w1)"
    and pid: "pid \<noteq> ''''" and cs: "cs \<noteq> calculateChecksum L item"
    and up: "\<And>n. \<not> dbDown env n" and p: "processItem L env e item w = (r, e', w')"
    by simp_all
  obtain cat e2 w2 where g:
    "(if CategoryPath item \<noteq> '''' then getOrCreateCategory L env (CategoryPath item) e w1
      else (None, e, w1)) = (cat, e2, w2)"
    by (metis prod_cases3)
  note fr = category_step_frame [OF g]
  have u: "updateProduct env pid item cat (calculateChecksum L item) w2
     = (None, tick (w2\<lparr>products :=
                      map (\<lambda>p. if p_id p = pid
                                then p\<lparr>p_item := (storedItem item)\<lparr>MPN := MPN (p_item p)\<rparr>,
                                       p_category_id := cat, p_checksum := calculateChecksum L item\<rparr>
                                else p)
                          (products w2)\<rparr>))"
    by (simp add: updateProduct_def up)
  from processItem_unfold [OF f g] pid cs u p
  have res: "r = None" "e' = incUpdated e2"
    "w' = tick (w2\<lparr>products :=
                      map (\<lambda>p. if p_id p = pid
                                then p\<lparr>p_item := (storedItem item)\<lparr>MPN := MPN (p_item p)\<rparr>,
                                       p_category_id := cat, p_checksum := calculateChecksum L item\<rparr>
                                else p)
                          (products w2)\<rparr>)"
    by simp_all
  have pw: "products w2 = products w"
    using fr findExistingProduct_products [OF f] by simp
  show "r = None" by (rule res)
  show "Updated (progress e') = Updated (progress e) + 1"
    using res fr by (simp add: incUpdated_def)
  show "Skipped (progress e') = Skipped (progress e)"
    using res fr by (simp add: incUpdated_def)
  show "\<exists>cat. products w' =
              map (\<lambda>p. if p_id p = pid
                        then p\<lparr>p_item := (storedItem item)\<lparr>MPN := MPN (p_item p)\<rparr>,
                               p_category_id := cat, p_checksum := calculateChecksum L item\<rparr>
                        else p) (products w)"
    using res(3) pw by (intro exI [of _ cat]) (simp add: tick_def)
next
  assume a: "ImportMode (feed e) = ImportModeUpdateOnly
      \<and> findExistingProduct env (feed e) item w = (('''', cs), w1)
      \<and> (\<forall>n. \<not> dbDown env n)
      \<and> processItem L env e item w = (r, e', w')"
  then have f: "findExistingProduct env (feed e) item w = (('''', cs), w1)"
    and up: "\<And>n. \<not> dbDown env n" and p: "processItem L env e item w = (r, e', w')"
    by simp_all
  obtain cat e2 w2 where g:
    "(if CategoryPath item \<noteq> '''' then getOrCreateCategory L env (CategoryPath item) e w1
      else (None, e, w1)) = (cat, e2, w2)"
    by (metis prod_cases3)
  note fr = category_step_frame [OF g]
  obtain rc wc where c: "createProduct L env e2 item cat (calculateChecksum L item) w2 = (rc, wc)"
    by (cases "createProduct L env e2 item cat (calculateChecksum L item) w2")
  have rc: "rc = None"
    using c up by (auto simp: createProduct_def Let_def split: prod.splits)
  from processItem_unfold [OF f g] c rc p
  have res: "r = None" "e' = incCreated e2" "w' = wc" by simp_all
  have pw: "products w2 = products w"
    using fr findExistingProduct_products [OF f] by simp
  show "r = None" by (rule res)
  show "Created (progress e') = Created (progress e) + 1"
    using res fr by (simp add: incCreated_def)
  show "Skipped (progress e') = Skipped (progress e)"
    using res fr by (simp add: incCreated_def)
  show "length (products w') = length (products w) + 1"
    using createProduct_products [OF c] rc res pw by simp
qed

theorem processItem_ignores_import_mode_witness:
  "ImportMode (feed (NewImportEngine (shopFeed FeedTypeCSV ImportModeCreateOnly))) = ImportModeCreateOnly
   \<and> findExistingProduct (plainEnv '''' None)
        (feed (NewImportEngine (shopFeed FeedTypeCSV ImportModeCreateOnly)))
        (widget\<lparr>Price := Finite 2\<rparr>)
        (catalogWith [storedWidget (calculateChecksum (plainLib (\<lambda>s. s)) widget)])
       = ((''p-1'', calculateChecksum (plainLib (\<lambda>s. s)) widget),
          tick (catalogWith [storedWidget (calculateChecksum (plainLib (\<lambda>s. s)) widget)]))
   \<and> calculateChecksum (plainLib (\<lambda>s. s)) widget
        \<noteq> calculateChecksum (plainLib (\<lambda>s. s)) (widget\<lparr>Price := Finite 2\<rparr>)
   \<and> Updated (progress (fst (snd (processItem (plainLib (\<lambda>s. s)) (plainEnv '''' None)
        (NewImportEngine (shopFeed FeedTypeCSV ImportModeCreateOnly)) (widget\<lparr>Price := Finite 2\<rparr>)
        (catalogWith [storedWidget (calculateChecksum (plainLib (\<lambda>s. s)) widget)]))))) = 1
   \<and> Skipped (progress (fst (snd (processItem (plainLib (\<lambda>s. s)) (plainEnv '''' None)
        (NewImportEngine (shopFeed FeedTypeCSV ImportModeCreateOnly)) (widget\<lparr>Price := Finite 2\<rparr>)
        (catalogWith [storedWidget (calculateChecksum (plainLib (\<lambda>s. s)) widget)]))))) = 0
   \<and> map (\<lambda>p. (Price (p_item p), p_checksum p))
        (products (snd (snd (processItem (plainLib (\<lambda>s. s)) (plainEnv '''' None)
          (NewImportEngine (shopFeed FeedTypeCSV ImportModeCreateOnly)) (widget\<lparr>Price := Finite 2\<rparr>)
          (catalogWith [storedWidget (calculateChecksum (plainLib (\<lambda>s. s)) widget)])))))
       = [(Finite 2, calculateChecksum (plainLib (\<lambda>s. s)) (widget\<lparr>Price := Finite 2\<rparr>))]
   \<and> ImportMode (feed (NewImportEngine (shopFeed FeedTypeCSV ImportModeUpdateOnly))) = ImportModeUpdateOnly
   \<and> findExistingProduct (plainEnv '''' None)
        (feed (NewImportEngine (shopFeed FeedTypeCSV ImportModeUpdateOnly))) widget emptyWorld
       = (('''', ''''), tick emptyWorld)
   \<and> Created (progress (fst (snd (processItem (plainLib (\<lambda>s. s)) (plainEnv '''' None)
        (NewImportEngine (shopFeed FeedTypeCSV ImportModeUpdateOnly)) widget emptyWorld)))) = 1
   \<and> Skipped (progress (fst (snd (processItem (plainLib (\<lambda>s. s)) (plainEnv '''' None)
        (NewImportEngine (shopFeed FeedTypeCSV ImportModeUpdateOnly)) widget emptyWorld)))) = 0
   \<and> length (products (snd (snd (processItem (plainLib (\<lambda>s. s)) (plainEnv '''' None)
        (NewImportEngine (shopFeed FeedTypeCSV ImportModeUpdateOnly)) widget emptyWorld)))) = 1"
proof -
  let ?L = "plainLib (\<lambda>s. s)"
  let ?env = "plainEnv '''' None"
  let ?eA = "NewImportEngine (shopFeed FeedTypeCSV ImportModeCreateOnly)"
  let ?eB = "NewImportEngine (shopFeed FeedTypeCSV ImportModeUpdateOnly)"
  let ?item = "widget\<lparr>Price := Finite 2\<rparr>"
  let ?cs = "calculateChecksum ?L widget"
  let ?wA = "catalogWith [storedWidget ?cs]"
  let ?A = "processItem ?L ?env ?eA ?item ?wA"
  let ?B = "processItem ?L ?env ?eB widget emptyWorld"
  have up: "\<forall>n. \<not> dbDown ?env n" by (simp add: plainEnv_def)
  have mA: "ImportMode (feed ?eA) = ImportModeCreateOnly"
    and mB: "ImportMode (feed ?eB) = ImportModeUpdateOnly"
    by (simp_all add: NewImportEngine_def shopFeed_def)
  have fA: "findExistingProduct ?env (feed ?eA) ?item ?wA = ((''p-1'', ?cs), tick ?wA)"
    using find_widget [of ImportModeCreateOnly "Finite 2" ?cs] by (simp add: NewImportEngine_def)
  have fB: "findExistingProduct ?env (feed ?eB) widget emptyWorld = (('''', ''''), tick emptyWorld)"
    using find_nothing [of "''''" None FeedTypeCSV ImportModeUpdateOnly]
    by (simp add: NewImportEngine_def)
  have n: "''p-1'' \<noteq> ''''" by simp
  have pA: "?A = (fst ?A, fst (snd ?A), snd (snd ?A))" by simp
  have pB: "?B = (fst ?B, fst (snd ?B), snd (snd ?B))" by simp
  have A: "fst ?A = None \<and> Updated (progress (fst (snd ?A))) = Updated (progress ?eA) + 1
     \<and> Skipped (progress (fst (snd ?A))) = Skipped (progress ?eA)
     \<and> (\<exists>cat. products (snd (snd ?A)) =
              map (\<lambda>p. if p_id p = ''p-1''
                        then p\<lparr>p_item := (storedItem ?item)\<lparr>MPN := MPN (p_item p)\<rparr>,
                               p_category_id := cat, p_checksum := calculateChecksum ?L ?item\<rparr>
                        else p) (products ?wA))"
    using processItem_ignores_import_mode
      [of ?eA ?env ?item ?wA "''p-1''" ?cs "tick ?wA" ?L "fst ?A" "fst (snd ?A)" "snd (snd ?A)"]
      mA fA n widget_checksums_differ up pA
    by blast
  have B: "fst ?B = None \<and> Created (progress (fst (snd ?B))) = Created (progress ?eB) + 1
     \<and> Skipped (progress (fst (snd ?B))) = Skipped (progress ?eB)
     \<and> length (products (snd (snd ?B))) = length (products emptyWorld) + 1"
    using processItem_ignores_import_mode
      [of ?eB ?env widget emptyWorld _ "''''" "tick emptyWorld" ?L "fst ?B" "fst (snd ?B)" "snd (snd ?B)"]
      mB fB up pB
    by blast
  from A obtain cat where prods: "products (snd (snd ?A)) =
              map (\<lambda>p. if p_id p = ''p-1''
                        then p\<lparr>p_item := (storedItem ?item)\<lparr>MPN := MPN (p_item p)\<rparr>,
                               p_category_id := cat, p_checksum := calculateChecksum ?L ?item\<rparr>
                        else p) (products ?wA)"
    by blast
  have rows: "map (\<lambda>p. (Price (p_item p), p_checksum p)) (products (snd (snd ?A)))
                = [(Finite 2, calculateChecksum ?L ?item)]"
    unfolding prods by (simp add: catalogWith_def storedWidget_def storedItem_def)
  have zero: "Updated (progress ?eA) = 0" "Skipped (progress ?eA) = 0"
    "Created (progress ?eB) = 0" "Skipped (progress ?eB) = 0" "length (products emptyWorld) = 0"
    by (simp_all add: NewImportEngine_def zeroProgress_def emptyWorld_def)
  show ?thesis
    using mA mB fA fB widget_checksums_differ A B rows zero by simp
qed

subsection \<open>The token loop and its bounded form\<close>

lemma xmlLoop_fuel:
  fixes cb :: "rawItem \<Rightarrow> 's \<Rightarrow> (string option \<times> 's) exec"
  assumes "xmlLoop L path toks cb n x s = Some r"
  shows "\<exists>k. xmlFuel k L path toks cb n x s = Some r"
proof (rule xmlLoop.raw_induct [where xa = "((((((L, path), toks), cb), n), x), s)" and y = r
      and P = "\<lambda>L path toks cb n x s r. \<exists>k. xmlFuel k L path toks cb n x s = Some r",
      unfolded prod.case])
  show "xmlLoop L path toks cb n x s = Some r" by (rule assms)
next
  fix loop :: "GoLib \<Rightarrow> string \<Rightarrow> (nat \<Rightarrow> xmlResult) \<Rightarrow> (rawItem \<Rightarrow> 's \<Rightarrow> (string option \<times> 's) exec)
     \<Rightarrow> nat \<Rightarrow> XmlState \<Rightarrow> 's \<Rightarrow> (string option \<times> 's) exec option"
  fix L path toks and cb :: "rawItem \<Rightarrow> 's \<Rightarrow> (string option \<times> 's) exec" and n x s r
  assume IH: "\<And>L path toks cb n x s y. loop L path toks cb n x s = Some y
                \<Longrightarrow> \<exists>k. xmlFuel k L path toks cb n x s = Some y"
  assume body: "(case toks n of
      Tok t \<Rightarrow>
        (case xmlStep L path t x of
           (x', None) \<Rightarrow> loop L path toks cb (n + 1) x' s
         | (x', Some item) \<Rightarrow>
            (case cb item s of Panic \<Rightarrow> Some Panic
             | Done (None, s') \<Rightarrow> loop L path toks cb (n + 1) x' s'
             | Done (Some err, s') \<Rightarrow> Some (Done (Some err, s'))))
      | TokErr \<Rightarrow> loop L path toks cb (n + 1) x s
      | TokEOF \<Rightarrow> Some (Done (None, s))) = Some r"
  have next_step: "\<exists>k. xmlFuel k L path toks cb n x s = Some r"
    if "loop L path toks cb (n + 1) x' s' = Some r"
      and "\<And>k. xmlFuel (Suc k) L path toks cb n x s = xmlFuel k L path toks cb (n + 1) x' s'"
    for x' s'
  proof -
    from IH [OF that(1)] obtain k where "xmlFuel k L path toks cb (n + 1) x' s' = Some r" ..
    with that(2) [of k] have "xmlFuel (Suc k) L path toks cb n x s = Some r" by simp
    then show ?thesis ..
  qed
  show "\<exists>k. xmlFuel k L path toks cb n x s = Some r"
  proof (cases "toks n")
    case TokEOF
    with body have "xmlFuel (Suc 0) L path toks cb n x s = Some r" by simp
    then show ?thesis ..
  next
    case TokErr
    with body show ?thesis by (intro next_step [of x s]) simp_all
  next
    case (Tok t)
    obtain x' oi where st: "xmlStep L path t x = (x', oi)" by (cases "xmlStep L path t x")
    show ?thesis
    proof (cases oi)
      case None
      with Tok st body show ?thesis by (intro next_step [of x' s]) simp_all
    next
      case (Some item)
      show ?thesis
      proof (cases "cb item s")
        case Panic
        with Tok st Some body have "xmlFuel (Suc 0) L path toks cb n x s = Some r" by simp
        then show ?thesis ..
      next
        case (Done res)
        obtain e1 s1 where res: "res = (e1, s1)" by (cases res)
        show ?thesis
        proof (cases e1)
          case None
          with Tok st Some Done res body show ?thesis by (intro next_step [of x' s1]) simp_all
        next
          case (Some msg)
          with Tok st \<open>oi = Some item\<close> Done res body
          have r: "r = Done (Some msg, s1)" by simp
          from Tok st \<open>oi = Some item\<close> Done res Some
          have "xmlFuel (Suc 0) L path toks cb n x s = Some r" unfolding r by simp
          then show ?thesis ..
        qed
      qed
    qed
  qed
qed

lemma xmlFuel_loop:
  "xmlFuel k L path toks cb n x s = Some r \<Longrightarrow> xmlLoop L path toks cb n x s = Some r"
proof (induction k arbitrary: n x s)
  case 0
  then show ?case by simp
next
  case (Suc k)
  show ?case
  proof (cases "toks n")
    case TokEOF
    with Suc.prems show ?thesis by (subst xmlLoop.simps) simp
  next
    case TokErr
    with Suc.prems have "xmlFuel k L path toks cb (n + 1) x s = Some r" by simp
    from Suc.IH [OF this] TokErr show ?thesis by (subst xmlLoop.simps) simp
  next
    case (Tok t)
    obtain x' oi where st: "xmlStep L path t x = (x', oi)" by (cases "xmlStep L path t x")
    show ?thesis
    proof (cases oi)
      case None
      with Tok st Suc.prems have "xmlFuel k L path toks cb (n + 1) x' s = Some r" by simp
      from Suc.IH [OF this] Tok st None show ?thesis by (subst xmlLoop.simps) simp
    next
      case (Some item)
      show ?thesis
      proof (cases "cb item s")
        case Panic
        with Tok st Some Suc.prems show ?thesis by (subst xmlLoop.simps) simp
      next
        case (Done res)
        obtain e1 s1 where res: "res = (e1, s1)" by (cases res)
        show ?thesis
        proof (cases e1)
          case None
          with Tok st Some Done res Suc.prems
          have "xmlFuel k L path toks cb (n + 1) x' s1 = Some r" by simp
          from Suc.IH [OF this] Tok st Some Done res None show ?thesis
            by (subst xmlLoop.simps) simp
        next
          case (Some msg)
          with Tok st \<open>oi = Some item\<close> Done res Suc.prems
          have r: "r = Done (Some msg, s1)" by simp
          from Tok st \<open>oi = Some item\<close> Done res Some show ?thesis
            unfolding r by (subst xmlLoop.simps) simp
        qed
      qed
    qed
  qed
qed

subsection \<open>Invariants of a traversal\<close>

lemma stopRequest_progress: "progress (stopRequest env e) = progress e"
  by (simp add: stopRequest_def)

lemma accounted_progress: "progress e' = progress e \<Longrightarrow> accounted e' = accounted e"
  by (simp add: accounted_def)

lemma processCallback_stopped:
  "shouldStop e \<Longrightarrow> processCallback L env item (e, w) = Done (Some cancelledError, (e, w))"
  by (simp add: processCallback_def)

lemma runCallback_accounted:
  assumes "(\<lambda>item (e', w'). processCallback L env item (stopRequest env e', w')) item (e, w)
             = Done (err, (e', w'))"
    and "accounted e"
  shows "accounted e'"
proof (cases "shouldStop (stopRequest env e)")
  case True
  with assms(1) have "e' = stopRequest env e" by (simp add: processCallback_stopped)
  with assms(2) show ?thesis by (simp add: accounted_def stopRequest_progress)
next
  case False
  from assms(1) have "processCallback L env item (stopRequest env e, w) = Done (err, (e', w'))"
    by simp
  from processCallback_step [OF this False] assms(2) show ?thesis
    by (auto simp: accounted_def stopRequest_progress)
qed

lemma forEachItem_invariant:
  assumes step: "\<And>item s err s'. cb item s = Done (err, s') \<Longrightarrow> I s \<Longrightarrow> I s'"
  shows "forEachItem cb items s = Done (err, s') \<Longrightarrow> I s \<Longrightarrow> I s'"
proof (induction items arbitrary: s)
  case Nil
  then show ?case by simp
next
  case (Cons item items)
  show ?case
  proof (cases "cb item s")
    case Panic
    with Cons.prems show ?thesis by simp
  next
    case (Done r)
    obtain e1 s1 where r: "r = (e1, s1)" by (cases r)
    have I1: "I s1" using step Done r Cons.prems(2) by blast
    show ?thesis
    proof (cases e1)
      case None
      with Done r Cons.prems(1) have "forEachItem cb items s1 = Done (err, s')" by simp
      then show ?thesis using I1 by (rule Cons.IH)
    next
      case (Some msg)
      with Done r Cons.prems(1) have "s' = s1" by simp
      with I1 show ?thesis by simp
    qed
  qed
qed

lemma xmlFuel_invariant:
  assumes step: "\<And>item s err s'. cb item s = Done (err, s') \<Longrightarrow> I s \<Longrightarrow> I s'"
  shows "xmlFuel k L path toks cb n x s = Some (Done (err, s')) \<Longrightarrow> I s \<Longrightarrow> I s'"
proof (induction k arbitrary: n x s)
  case 0
  then show ?case by simp
next
  case (Suc k)
  show ?case
  proof (cases "toks n")
    case TokEOF
    with Suc.prems show ?thesis by simp
  next
    case TokErr
    with Suc.prems have "xmlFuel k L path toks cb (n + 1) x s = Some (Done (err, s'))" by simp
    then show ?thesis using Suc.prems(2) by (rule Suc.IH)
  next
    case (Tok t)
    obtain x' oi where st: "xmlStep L path t x = (x', oi)" by (cases "xmlStep L path t x")
    show ?thesis
    proof (cases oi)
      case None
      with Tok st Suc.prems have "xmlFuel k L path toks cb (n + 1) x' s = Some (Done (err, s'))"
        by simp
      then show ?thesis using Suc.prems(2) by (rule Suc.IH)
    next
      case (Some item)
      show ?thesis
      proof (cases "cb item s")
        case Panic
        with Tok st Some Suc.prems show ?thesis by simp
      next
        case (Done res)
        obtain e1 s1 where res: "res = (e1, s1)" by (cases res)
        have I1: "I s1" using step Done res Suc.prems(2) by blast
        show ?thesis
        proof (cases e1)
          case None
          with Tok st Some Done res Suc.prems
          have "xmlFuel k L path toks cb (n + 1) x' s1 = Some (Done (err, s'))" by simp
          then show ?thesis using I1 by (rule Suc.IH)
        next
          case (Some msg)
          with Tok st \<open>oi = Some item\<close> Done res Suc.prems have "s' = s1" by simp
          with I1 show ?thesis by simp
        qed
      qed
    qed
  qed
qed

lemma parseFeed_invariant:
  assumes step: "\<And>item s err s'. cb item s = Done (err, s') \<Longrightarrow> I s \<Longrightarrow> I s'"
    and run: "parseFeed L p feedType data cb s = Some (Done (err, s'))"
    and start: "I s"
  shows "I s'"
proof -
  consider (xml) "feedType = FeedTypeXML"
    | (csv) "feedType \<noteq> FeedTypeXML" "feedType = FeedTypeCSV"
    | (json) "feedType \<noteq> FeedTypeXML" "feedType \<noteq> FeedTypeCSV" "feedType = FeedTypeJSON"
    | (other) "feedType \<noteq> FeedTypeXML" "feedType \<noteq> FeedTypeCSV" "feedType \<noteq> FeedTypeJSON"
    by blast
  then show ?thesis
  proof cases
    case xml
    with run have "xmlLoop L (XMLItemPath p) (xmlDecoder L (sanitizeXML data)) cb 0 xmlInit s
                     = Some (Done (err, s'))"
      by (simp add: parseFeed_def ParseXMLFull_def)
    from xmlLoop_fuel [OF this] obtain k where
      "xmlFuel k L (XMLItemPath p) (xmlDecoder L (sanitizeXML data)) cb 0 xmlInit s
         = Some (Done (err, s'))" ..
    from xmlFuel_invariant [of cb I, OF step this start] show ?thesis .
  next
    case csv
    with run have c: "ParseCSVFull L p data cb s = Done (err, s')" by (simp add: parseFeed_def)
    show ?thesis
    proof (cases "CSVDelimiter p")
      case Nil
      with c show ?thesis by (simp add: ParseCSVFull_def)
    next
      case (Cons comma rest)
      show ?thesis
      proof (cases "csvReadAll L comma data")
        case (Inl msg)
        with Cons c start show ?thesis by (simp add: ParseCSVFull_def)
      next
        case (Inr records)
        show ?thesis
        proof (cases records)
          case Nil
          with Inr Cons c start show ?thesis by (simp add: ParseCSVFull_def)
        next
          case (Cons headers rows)
          with Inr \<open>CSVDelimiter p = comma # rest\<close> c
          have "forEachItem cb (map (\<lambda>record. csvItem headers record Map.empty) rows) s
                  = Done (err, s')"
            by (simp add: ParseCSVFull_def)
          from forEachItem_invariant [of cb I, OF step this start] show ?thesis .
        qed
      qed
    qed
  next
    case json
    with run have j: "ParseJSONFull L p data cb s = Done (err, s')" by (simp add: parseFeed_def)
    show ?thesis
    proof (cases "jsonUnmarshal L data")
      case (Inl msg)
      with j start show ?thesis by (simp add: ParseJSONFull_def)
    next
      case (Inr raw)
      show ?thesis
      proof (cases "findJSONProductsArray L raw")
        case None
        with Inr j start show ?thesis by (simp add: ParseJSONFull_def)
      next
        case (Some items)
        with Inr j have "forEachItem cb (jsonObjects items) s = Done (err, s')"
          by (simp add: ParseJSONFull_def)
        from forEachItem_invariant [of cb I, OF step this start] show ?thesis .
      qed
    qed
  next
    case other
    with run start show ?thesis by (simp add: parseFeed_def)
  qed
qed

lemma traversal_accounted:
  assumes "parseFeed L p feedType data
             (\<lambda>item (e', w'). processCallback L env item (stopRequest env e', w')) (e, w)
           = Some (Done (err, (e', w')))"
    and "accounted e"
  shows "accounted e'"
proof -
  let ?cb = "\<lambda>item (e', w'). processCallback L env item (stopRequest env e', w')"
  have step: "(accounted \<circ> fst) s'" if "?cb item s = Done (err, s')" "(accounted \<circ> fst) s"
    for item s err s'
  proof -
    obtain a b where s: "s = (a, b)" by (cases s)
    obtain a' b' where s': "s' = (a', b')" by (cases s')
    from that s s' have "?cb item (a, b) = Done (err, (a', b'))" "accounted a" by simp_all
    from runCallback_accounted [OF this] s' show ?thesis by simp
  qed
  from parseFeed_invariant [of ?cb "accounted \<circ> fst", OF step assms(1)] assms(2)
  show ?thesis by simp
qed

subsection \<open>The outcomes of a run\<close>

lemma Run_outcomes:
  assumes run: "Run L env triggeredBy e w = Some (Done out)" and idle: "\<not> isRunning e"
  obtains
    (download_failed) e3 history w3 msg where
      "startRun env triggeredBy e w = (e3, history, w3)" "download env = Inl msg"
      "out = released (failImport env e3 history (''Download error: '' @ msg) w3)"
  | (failed) e3 history w3 feedData x totalCount msg e7 w4 where
      "startRun env triggeredBy e w = (e3, history, w3)" "download env = Inr feedData"
      "parseFeed L (runParser e) (FeedType (feed e)) feedData countCallback 0
         = Some (Done (x, totalCount))"
      "parseFeed L (runParser e) (FeedType (feed e)) feedData
         (\<lambda>item (e', w'). processCallback L env item (stopRequest env e', w'))
         (countedRun totalCount e3, w3) = Some (Done (Some msg, (e7, w4)))"
      "\<not> strings_Contains msg ''cancelled''"
      "out = released (failImport env e7 (history\<lparr>histTotalItems := totalCount\<rparr>) msg w4)"
  | (completed) e3 history w3 feedData x totalCount err e7 w4 where
      "startRun env triggeredBy e w = (e3, history, w3)" "download env = Inr feedData"
      "parseFeed L (runParser e) (FeedType (feed e)) feedData countCallback 0
         = Some (Done (x, totalCount))"
      "parseFeed L (runParser e) (FeedType (feed e)) feedData
         (\<lambda>item (e', w'). processCallback L env item (stopRequest env e', w'))
         (countedRun totalCount e3, w3) = Some (Done (err, (e7, w4)))"
      "err = None \<or> (\<exists>msg. err = Some msg \<and> strings_Contains msg ''cancelled'')"
      "out = released (completeImport env e7 (history\<lparr>histTotalItems := totalCount\<rparr>) w4)"
proof -
  obtain e3 history w3 where st: "startRun env triggeredBy e w = (e3, history, w3)"
    by (metis prod_cases3)
  show thesis
  proof (cases "download env")
    case (Inl msg)
    with run idle st have "out = released (failImport env e3 history (''Download error: '' @ msg) w3)"
      by (simp add: Run_def)
    with st Inl show thesis by (rule download_failed)
  next
    case (Inr feedData)
    let ?count = "parseFeed L (runParser e) (FeedType (feed e)) feedData countCallback 0"
    from run idle st Inr obtain x totalCount where cnt: "?count = Some (Done (x, totalCount))"
      by (cases ?count; simp add: Run_def split: exec.splits prod.splits)
    let ?trav = "parseFeed L (runParser e) (FeedType (feed e)) feedData
         (\<lambda>item (e', w'). processCallback L env item (stopRequest env e', w'))
         (countedRun totalCount e3, w3)"
    from run idle st Inr cnt obtain err e7 w4 where tr: "?trav = Some (Done (err, (e7, w4)))"
      by (cases ?trav; simp add: Run_def split: exec.splits prod.splits)
    from run idle st Inr cnt tr
    have out: "Some (Done out) =
        (case err of
           Some msg \<Rightarrow>
             if \<not> strings_Contains msg ''cancelled''
             then Some (Done (released (failImport env e7 (history\<lparr>histTotalItems := totalCount\<rparr>) msg w4)))
             else Some (Done (released (completeImport env e7 (history\<lparr>histTotalItems := totalCount\<rparr>) w4)))
         | None \<Rightarrow> Some (Done (released (completeImport env e7 (history\<lparr>histTotalItems := totalCount\<rparr>) w4))))"
      by (simp add: Run_def Let_def split del: if_split cong del: if_weak_cong)
    show thesis
    proof (cases err)
      case None
      with out have o: "out = released (completeImport env e7 (history\<lparr>histTotalItems := totalCount\<rparr>) w4)"
        by simp
      have c: "err = None \<or> (\<exists>msg. err = Some msg \<and> strings_Contains msg ''cancelled'')"
        using None by simp
      show thesis by (rule completed [OF st Inr cnt tr c o])
    next
      case (Some msg)
      show thesis
      proof (cases "strings_Contains msg ''cancelled''")
        case True
        with Some out
        have o: "out = released (completeImport env e7 (history\<lparr>histTotalItems := totalCount\<rparr>) w4)"
          by simp
        have c: "err = None \<or> (\<exists>msg. err = Some msg \<and> strings_Contains msg ''cancelled'')"
          using Some True by simp
        show thesis by (rule completed [OF st Inr cnt tr c o])
      next
        case False
        with Some out
        have o: "out = released (failImport env e7 (history\<lparr>histTotalItems := totalCount\<rparr>) msg w4)"
          by simp
        from tr Some have tr': "parseFeed L (runParser e) (FeedType (feed e)) feedData
           (\<lambda>item (e', w'). processCallback L env item (stopRequest env e', w'))
           (countedRun totalCount e3, w3) = Some (Done (Some msg, (e7, w4)))" by simp
        show thesis by (rule failed [OF st Inr cnt tr' False o])
      qed
    qed
  qed
qed

lemma startRun_progress:
  "startRun env triggeredBy e w = (e3, history, w3) \<Longrightarrow>
     Processed (progress e3) = 0 \<and> Created (progress e3) = 0 \<and> Updated (progress e3) = 0
     \<and> Skipped (progress e3) = 0 \<and> Errors (progress e3) = 0"
  by (auto simp: startRun_def Let_def zeroProgress_def updateProgress_counters split: prod.splits)

lemma countedRun_counters:
  "Processed (progress (countedRun n e)) = Processed (progress e)"
  "Created (progress (countedRun n e)) = Created (progress e)"
  "Updated (progress (countedRun n e)) = Updated (progress e)"
  "Skipped (progress (countedRun n e)) = Skipped (progress e)"
  "Errors (progress (countedRun n e)) = Errors (progress e)"
  by (simp_all add: countedRun_def Let_def updateProgress_counters)

lemma completeImport_history:
  "completeImport env e history w = ((res, err), e', w') \<Longrightarrow>
     err = None \<and>
     (\<exists>h. res = Some h \<and> histStatus h = ImportStatusCompleted
        \<and> histProcessed h = Processed (progress e) \<and> histCreated h = Created (progress e)
        \<and> histUpdated h = Updated (progress e) \<and> histSkipped h = Skipped (progress e)
        \<and> histErrors h = Errors (progress e))"
  by (auto simp: completeImport_def Let_def)

lemma failImport_history:
  "failImport env e history msg w = ((res, err), e', w') \<Longrightarrow>
     err = Some msg \<and> (\<exists>h. res = Some h \<and> histStatus h = ImportStatusFailed)"
  by (auto simp: failImport_def Let_def)

lemma mapItem_no_mappings: "FieldMappings f = [] \<Longrightarrow> \<exists>m. mapItem L f raw = Done m"
  by (simp add: mapItem_def Let_def)

lemma processItem_feed:
  assumes "processItem L env e item w = (r, e', w')"
  shows "feed e' = feed e"
proof -
  obtain pid cs w1 where f: "findExistingProduct env (feed e) item w = ((pid, cs), w1)"
    by (cases "findExistingProduct env (feed e) item w") auto
  obtain cat e2 w2 where g:
    "(if CategoryPath item \<noteq> '''' then getOrCreateCategory L env (CategoryPath item) e w1
      else (None, e, w1)) = (cat, e2, w2)"
    by (metis prod_cases3)
  note fr = category_step_frame [OF g]
  obtain ru wu where u: "updateProduct env pid item cat (calculateChecksum L item) w2 = (ru, wu)"
    by (cases "updateProduct env pid item cat (calculateChecksum L item) w2")
  obtain rc wc where c: "createProduct L env e2 item cat (calculateChecksum L item) w2 = (rc, wc)"
    by (cases "createProduct L env e2 item cat (calculateChecksum L item) w2")
  from processItem_unfold [OF f g] assms u c
  have "e' = incSkipped e \<or> e' = incUpdated e2 \<or> e' = incCreated e2 \<or> e' = e2"
    by (cases ru; cases rc) (auto split: if_splits)
  with fr show ?thesis
    by (auto simp: incSkipped_def incUpdated_def incCreated_def)
qed

lemma processCallback_returns:
  assumes "FieldMappings (feed e) = []"
  shows "\<exists>err e' w'. processCallback L env item (e, w) = Done (err, (e', w')) \<and> feed e' = feed e"
proof (cases "shouldStop e")
  case True
  then show ?thesis by (simp add: processCallback_stopped)
next
  case False
  note run = processCallback_running [OF False, of L env item w]
  from mapItem_no_mappings [OF assms] obtain m where m: "mapItem L (feed e) item = Done m" ..
  show ?thesis
  proof (cases m)
    case None
    with m run show ?thesis by (simp add: incSkipped_def incProcessed_def)
  next
    case (Some fi)
    obtain r e2 w2 where p: "processItem L env (incProcessed e) fi w = (r, e2, w2)"
      by (metis prod_cases3)
    from processItem_feed [OF p] have fe: "feed e2 = feed e" by (simp add: incProcessed_def)
    show ?thesis
      using m Some p run fe
      by (cases r)
         (simp_all add: incErrors_def incProcessed_def updateProgressStats_def updateProgress_def
            Let_def split: if_splits)
  qed
qed

lemma forEachItem_returns:
  assumes "\<And>item s. I s \<Longrightarrow> \<exists>err s'. cb item s = Done (err, s') \<and> I s'"
  shows "I s \<Longrightarrow> \<exists>err s'. forEachItem cb items s = Done (err, s')"
proof (induction items arbitrary: s)
  case Nil
  show ?case by simp
next
  case (Cons item items)
  from assms [OF Cons.prems] obtain err s1 where c: "cb item s = Done (err, s1)" and I1: "I s1"
    by blast
  show ?case
  proof (cases err)
    case None
    with c Cons.IH [OF I1] show ?thesis by simp
  next
    case (Some msg)
    with c show ?thesis by simp
  qed
qed

lemma ParseCSVFull_returns:
  assumes "CSVDelimiter p \<noteq> []"
    and "\<And>item s. I s \<Longrightarrow> \<exists>err s'. cb item s = Done (err, s') \<and> I s'"
    and "I s"
  shows "\<exists>err s'. ParseCSVFull L p data cb s = Done (err, s')"
proof -
  from assms(1) obtain comma rest where d: "CSVDelimiter p = comma # rest"
    by (cases "CSVDelimiter p") auto
  show ?thesis
  proof (cases "csvReadAll L comma data")
    case (Inl msg)
    with d show ?thesis by (simp add: ParseCSVFull_def)
  next
    case (Inr records)
    show ?thesis
    proof (cases records)
      case Nil
      with Inr d show ?thesis by (simp add: ParseCSVFull_def)
    next
      case (Cons headers rows)
      with Inr d forEachItem_returns [of I cb, OF assms(2) assms(3)] show ?thesis
        by (simp add: ParseCSVFull_def)
    qed
  qed
qed

lemma runCallback_returns:
  assumes "FieldMappings (feed (fst s)) = []"
  shows "\<exists>err s'. (\<lambda>item (e', w'). processCallback L env item (stopRequest env e', w')) item s
            = Done (err, s') \<and> FieldMappings (feed (fst s')) = []"
proof -
  obtain e w where s: "s = (e, w)" by (cases s)
  have m: "FieldMappings (feed (stopRequest env e)) = []" and fe: "feed (stopRequest env e) = feed e"
    using assms s by (simp_all add: stopRequest_def)
  from processCallback_returns [OF m, of L env item w] s fe assms show ?thesis by auto
qed

lemma startRun_feed:
  "startRun env triggeredBy e w = (e3, history, w3) \<Longrightarrow> feed e3 = feed e"
  by (auto simp: startRun_def Let_def updateProgress_def split: prod.splits)

lemma countedRun_feed: "feed (countedRun n e) = feed e"
  by (simp add: countedRun_def Let_def updateProgress_def)

text \<open>A run over a CSV feed with a delimiter and no field mappings returns.\<close>

lemma Run_csv_returns:
  assumes "FeedType (feed e) = FeedTypeCSV" "feedCSVDelimiter (feed e) \<noteq> ''''"
    and "FieldMappings (feed e) = []"
  shows "\<exists>out. Run L env triggeredBy e w = Some (Done out)"
proof (cases "isRunning e")
  case True
  then show ?thesis by (simp add: Run_def)
next
  case False
  obtain e3 history w3 where st: "startRun env triggeredBy e w = (e3, history, w3)"
    by (metis prod_cases3)
  have csv: "parseFeed L (runParser e) (FeedType (feed e)) feedData cb s
               = Some (ParseCSVFull L (runParser e) feedData cb s)" for feedData cb s
    using assms(1) by (simp add: parseFeed_def FeedTypeCSV_def FeedTypeXML_def)
  have delim: "CSVDelimiter (runParser e) \<noteq> []"
    using assms(2) by (simp add: runParser_def)
  show ?thesis
  proof (cases "download env")
    case (Inl msg)
    with False st
    have "Run L env triggeredBy e w
            = Some (Done (released (failImport env e3 history (''Download error: '' @ msg) w3)))"
      by (simp add: Run_def)
    then show ?thesis by (rule exI)
  next
    case (Inr feedData)
    have "\<exists>err s'. ParseCSVFull L (runParser e) feedData countCallback (0::int) = Done (err, s')"
      by (rule ParseCSVFull_returns [of _ "\<lambda>s. True", OF delim]) (simp_all add: countCallback_def)
    then obtain x totalCount where
      cnt: "ParseCSVFull L (runParser e) feedData countCallback 0 = Done (x, totalCount)" by blast
    let ?cb = "\<lambda>item (e', w'). processCallback L env item (stopRequest env e', w')"
    have "\<exists>err s'. ParseCSVFull L (runParser e) feedData ?cb (countedRun totalCount e3, w3)
                     = Done (err, s')"
    proof (rule ParseCSVFull_returns [of _ "\<lambda>s. FieldMappings (feed (fst s)) = []", OF delim])
      show "\<exists>err s'. ?cb item s = Done (err, s') \<and> FieldMappings (feed (fst s')) = []"
        if "FieldMappings (feed (fst s)) = []" for item s
        using that by (rule runCallback_returns)
      show "FieldMappings (feed (fst (countedRun totalCount e3, w3))) = []"
        using assms(3) startRun_feed [OF st] by (simp add: countedRun_feed)
    qed
    then obtain err e7 w4 where
      tr: "ParseCSVFull L (runParser e) feedData ?cb (countedRun totalCount e3, w3)
             = Done (err, (e7, w4))"
      by (metis prod.collapse)
    let ?h = "history\<lparr>histTotalItems := totalCount\<rparr>"
    from False st Inr cnt tr
    have "Run L env triggeredBy e w =
        (case err of
           Some msg \<Rightarrow>
             if \<not> strings_Contains msg ''cancelled''
             then Some (Done (released (failImport env e7 ?h msg w4)))
             else Some (Done (released (completeImport env e7 ?h w4)))
         | None \<Rightarrow> Some (Done (released (completeImport env e7 ?h w4))))"
      by (simp add: Run_def csv Let_def split del: if_split cong del: if_weak_cong)
    then have "Run L env triggeredBy e w = Some (Done (released (completeImport env e7 ?h w4)))
        \<or> (\<exists>msg. Run L env triggeredBy e w = Some (Done (released (failImport env e7 ?h msg w4))))"
      by (cases err) (auto split: if_splits)
    then show ?thesis by (elim disjE exE) (erule exI)+
  qed
qed

lemma startRun_history:
  "startRun env triggeredBy e w = (e3, history, w3) \<Longrightarrow>
     histProcessed history = 0 \<and> histCreated history = 0 \<and> histUpdated history = 0
     \<and> histSkipped history = 0 \<and> histErrors history = 0"
  by (auto simp: startRun_def Let_def split: prod.splits)

lemma released_result: "released (res, e, w) = (res', e', w') \<Longrightarrow> res' = res \<and> w' = w"
  by (auto simp: released_def)

lemma failImport_counters:
  "failImport env e history msg w = ((res, err), e', w') \<Longrightarrow>
     \<exists>h. res = Some h \<and> histStatus h = ImportStatusFailed \<and> err = Some msg
        \<and> histProcessed h = histProcessed history \<and> histCreated h = histCreated history
        \<and> histUpdated h = histUpdated history \<and> histSkipped h = histSkipped history
        \<and> histErrors h = histErrors history"
  by (auto simp: failImport_def Let_def)

text \<open>
  Every run that returns a history row returns it with status \<open>completed\<close> or
  \<open>failed\<close>, and with counters that add up.
\<close>

lemma Run_history:
  assumes run: "Run L env triggeredBy e w = Some (Done ((res, err), e', w'))"
    and idle: "\<not> isRunning e"
  shows "\<exists>h. res = Some h
     \<and> (histStatus h = ImportStatusCompleted \<or> histStatus h = ImportStatusFailed)
     \<and> histProcessed h = histCreated h + histUpdated h + histSkipped h + histErrors h"
  using run idle
proof (cases rule: Run_outcomes)
  case (download_failed e3 history w3 msg)
  obtain r x a b where f: "failImport env e3 history (''Download error: '' @ msg) w3 = ((r, x), a, b)"
    by (cases "failImport env e3 history (''Download error: '' @ msg) w3") auto
  with download_failed(3) have "res = r" by (simp add: released_def)
  with failImport_counters [OF f] startRun_history [OF download_failed(1)] show ?thesis by auto
next
  case (failed e3 history w3 feedData x totalCount msg e7 w4)
  obtain r y a b where f: "failImport env e7 (history\<lparr>histTotalItems := totalCount\<rparr>) msg w4 = ((r, y), a, b)"
    by (cases "failImport env e7 (history\<lparr>histTotalItems := totalCount\<rparr>) msg w4") auto
  with failed(6) have "res = r" by (simp add: released_def)
  with failImport_counters [OF f] startRun_history [OF failed(1)] show ?thesis by auto
next
  case (completed e3 history w3 feedData x totalCount err0 e7 w4)
  obtain r y a b where c: "completeImport env e7 (history\<lparr>histTotalItems := totalCount\<rparr>) w4 = ((r, y), a, b)"
    by (cases "completeImport env e7 (history\<lparr>histTotalItems := totalCount\<rparr>) w4") auto
  with completed(6) have r: "res = r" by (simp add: released_def)
  have "accounted (countedRun totalCount e3)"
    using startRun_progress [OF completed(1)] by (simp add: accounted_def countedRun_counters)
  from traversal_accounted [OF completed(4) this] have "accounted e7" .
  with completeImport_history [OF c] r show ?thesis by (auto simp: accounted_def)
qed

subsection \<open>Counter accounting\<close>

text \<open>
  C10. Every call of the per-item callback that does not find the stop flag set, and
  returns, returns no error, adds one to the processed counter and one to exactly one of
  created, updated, skipped and errors. So the equation
  \<open>processed = created + updated + skipped + errors\<close> is kept by a whole traversal of a
  feed of any type (a traversal that is cut short by a stop included), and the history row
  of every run that returns one satisfies it.
\<close>

theorem counters_accounted:
  "(\<not> shouldStop e \<and> processCallback L env item (e, w) = Done (err, (e', w'))
      \<longrightarrow> err = None
        \<and> Processed (progress e') = Processed (progress e) + 1
        \<and> (  (Created (progress e') = Created (progress e) + 1 \<and> Updated (progress e') = Updated (progress e)
               \<and> Skipped (progress e') = Skipped (progress e) \<and> Errors (progress e') = Errors (progress e))
            \<or> (Created (progress e') = Created (progress e) \<and> Updated (progress e') = Updated (progress e) + 1
               \<and> Skipped (progress e') = Skipped (progress e) \<and> Errors (progress e') = Errors (progress e))
            \<or> (Created (progress e') = Created (progress e) \<and> Updated (progress e') = Updated (progress e)
               \<and> Skipped (progress e') = Skipped (progress e) + 1 \<and> Errors (progress e') = Errors (progress e))
            \<or> (Created (progress e') = Created (progress e) \<and> Updated (progress e') = Updated (progress e)
               \<and> Skipped (progress e') = Skipped (progress e) \<and> Errors (progress e') = Errors (progress e) + 1)))
   \<and> (accounted e1
        \<and> parseFeed L p feedType feedData
             (\<lambda>item (e', w'). processCallback L env item (stopRequest env e', w')) (e1, w1)
           = Some (Done (err2, (e2, w2)))
      \<longrightarrow> accounted e2)
   \<and> (\<not> isRunning e0 \<and> Run L env triggeredBy e0 w0 = Some (Done ((Some h, err3), e3, w3))
      \<longrightarrow> histProcessed h = histCreated h + histUpdated h + histSkipped h + histErrors h)"
proof (intro conjI impI)
  assume a: "\<not> shouldStop e \<and> processCallback L env item (e, w) = Done (err, (e', w'))"
  then have s: "\<not> shouldStop e" and c: "processCallback L env item (e, w) = Done (err, (e', w'))"
    by simp_all
  note st = processCallback_step [OF c s]
  from st show "err = None" by simp
  from st show "Processed (progress e') = Processed (progress e) + 1" by simp
  from st show "(Created (progress e') = Created (progress e) + 1 \<and> Updated (progress e') = Updated (progress e)
               \<and> Skipped (progress e') = Skipped (progress e) \<and> Errors (progress e') = Errors (progress e))
            \<or> (Created (progress e') = Created (progress e) \<and> Updated (progress e') = Updated (progress e) + 1
               \<and> Skipped (progress e') = Skipped (progress e) \<and> Errors (progress e') = Errors (progress e))
            \<or> (Created (progress e') = Created (progress e) \<and> Updated (progress e') = Updated (progress e)
               \<and> Skipped (progress e') = Skipped (progress e) + 1 \<and> Errors (progress e') = Errors (progress e))
            \<or> (Created (progress e') = Created (progress e) \<and> Updated (progress e') = Updated (progress e)
               \<and> Skipped (progress e') = Skipped (progress e) \<and> Errors (progress e') = Errors (progress e) + 1)"
    by simp
next
  assume "accounted e1
        \<and> parseFeed L p feedType feedData
             (\<lambda>item (e', w'). processCallback L env item (stopRequest env e', w')) (e1, w1)
           = Some (Done (err2, (e2, w2)))"
  then show "accounted e2" using traversal_accounted by blast
next
  assume "\<not> isRunning e0 \<and> Run L env triggeredBy e0 w0 = Some (Done ((Some h, err3), e3, w3))"
  then have "Run L env triggeredBy e0 w0 = Some (Done ((Some h, err3), e3, w3))" "\<not> isRunning e0"
    by simp_all
  from Run_history [OF this]
  show "histProcessed h = histCreated h + histUpdated h + histSkipped h + histErrors h" by simp
qed

theorem counters_accounted_witness:
  "\<not> shouldStop (NewImportEngine (shopFeed FeedTypeCSV ImportModeCreateUpdate))
   \<and> (\<exists>err e' w'.
        processCallback (plainLib (\<lambda>s. s)) (plainEnv '''' None) [''title'' \<mapsto> JString ''Widget'']
          (NewImportEngine (shopFeed FeedTypeCSV ImportModeCreateUpdate), emptyWorld)
          = Done (err, (e', w'))
        \<and> err = None
        \<and> Processed (progress e')
            = Processed (progress (NewImportEngine (shopFeed FeedTypeCSV ImportModeCreateUpdate))) + 1)
   \<and> accounted (NewImportEngine (shopFeed FeedTypeCSV ImportModeCreateUpdate))
   \<and> (\<exists>err e' w'.
        parseFeed (plainLib (\<lambda>s. s))
          (runParser (NewImportEngine (shopFeed FeedTypeCSV ImportModeCreateUpdate))) FeedTypeCSV ''''
          (\<lambda>item (e', w'). processCallback (plainLib (\<lambda>s. s)) (plainEnv '''' None) item
                              (stopRequest (plainEnv '''' None) e', w'))
          (NewImportEngine (shopFeed FeedTypeCSV ImportModeCreateUpdate), emptyWorld)
          = Some (Done (err, (e', w')))
        \<and> accounted e')
   \<and> \<not> isRunning (NewImportEngine (shopFeed FeedTypeCSV ImportModeCreateUpdate))
   \<and> (\<exists>h err e' w'.
        Run (plainLib (\<lambda>s. s)) (plainEnv '''' None) ''manual''
          (NewImportEngine (shopFeed FeedTypeCSV ImportModeCreateUpdate)) emptyWorld
          = Some (Done ((Some h, err), e', w'))
        \<and> histProcessed h = histCreated h + histUpdated h + histSkipped h + histErrors h)"
proof -
  let ?L = "plainLib (\<lambda>s. s)"
  let ?env = "plainEnv '''' None"
  let ?E = "NewImportEngine (shopFeed FeedTypeCSV ImportModeCreateUpdate)"
  let ?raw = "[''title'' \<mapsto> JString ''Widget'']"
  let ?cb = "\<lambda>item (e', w'). processCallback ?L ?env item (stopRequest ?env e', w')"
  have ns: "\<not> shouldStop ?E" and idle: "\<not> isRunning ?E"
    and nomap: "FieldMappings (feed ?E) = []"
    and csv: "FeedType (feed ?E) = FeedTypeCSV" and delim: "feedCSVDelimiter (feed ?E) \<noteq> ''''"
    by (simp_all add: NewImportEngine_def shopFeed_def)
  have acc: "accounted ?E"
    by (simp add: accounted_def NewImportEngine_def zeroProgress_def)
  from processCallback_returns [OF nomap, of ?L ?env ?raw emptyWorld]
  obtain err e' w' where c: "processCallback ?L ?env ?raw (?E, emptyWorld) = Done (err, (e', w'))"
    by blast
  from counters_accounted [of ?E ?L ?env ?raw emptyWorld err e' w'] ns c
  have one: "err = None \<and> Processed (progress e') = Processed (progress ?E) + 1" by blast
  have "\<exists>err s'. ParseCSVFull ?L (runParser ?E) '''' ?cb (?E, emptyWorld) = Done (err, s')"
  proof (rule ParseCSVFull_returns [of _ "\<lambda>s. FieldMappings (feed (fst s)) = []"])
    show "CSVDelimiter (runParser ?E) \<noteq> []" using delim by (simp add: runParser_def)
    show "\<exists>err s'. ?cb item s = Done (err, s') \<and> FieldMappings (feed (fst s')) = []"
      if "FieldMappings (feed (fst s)) = []" for item s
      using that by (rule runCallback_returns)
    show "FieldMappings (feed (fst (?E, emptyWorld))) = []" using nomap by simp
  qed
  then obtain err2 e2 w2 where
    "ParseCSVFull ?L (runParser ?E) '''' ?cb (?E, emptyWorld) = Done (err2, (e2, w2))"
    by (metis prod.collapse)
  then have tr: "parseFeed ?L (runParser ?E) FeedTypeCSV '''' ?cb (?E, emptyWorld)
                   = Some (Done (err2, (e2, w2)))"
    by (simp add: parseFeed_def FeedTypeCSV_def FeedTypeXML_def)
  from counters_accounted [of _ ?L ?env _ _ _ _ _ ?E "runParser ?E" FeedTypeCSV "''''" emptyWorld err2 e2 w2]
    acc tr
  have acc2: "accounted e2" by blast
  from Run_csv_returns [OF csv delim nomap, of ?L ?env "''manual''" emptyWorld]
  obtain out where r: "Run ?L ?env ''manual'' ?E emptyWorld = Some (Done out)" ..
  obtain res err3 e3 w3 where out: "out = ((res, err3), e3, w3)" by (cases out) auto
  from Run_history [OF r [unfolded out] idle] obtain h where h: "res = Some h" by blast
  from counters_accounted
    [of _ ?L ?env _ _ _ _ _ _ _ _ _ _ _ _ _ ?E "''manual''" emptyWorld h err3 e3 w3]
    idle r out h
  have sum: "histProcessed h = histCreated h + histUpdated h + histSkipped h + histErrors h"
    by blast
  show ?thesis
    using ns c one acc tr acc2 idle r out h sum by blast
qed

subsection \<open>Stopping a run\<close>

lemma processItem_shouldStop:
  assumes "processItem L env e item w = (r, e', w')"
  shows "shouldStop e' = shouldStop e"
proof -
  obtain pid cs w1 where f: "findExistingProduct env (feed e) item w = ((pid, cs), w1)"
    by (cases "findExistingProduct env (feed e) item w") auto
  obtain cat e2 w2 where g:
    "(if CategoryPath item \<noteq> '''' then getOrCreateCategory L env (CategoryPath item) e w1
      else (None, e, w1)) = (cat, e2, w2)"
    by (metis prod_cases3)
  have fr: "shouldStop e2 = shouldStop e"
  proof (cases "CategoryPath item \<noteq> ''''")
    case True
    with g have "getOrCreateCategory L env (CategoryPath item) e w1 = (cat, e2, w2)" by simp
    then show ?thesis by (simp add: getOrCreateCategory_frame)
  next
    case False
    with g show ?thesis by simp
  qed
  obtain ru wu where u: "updateProduct env pid item cat (calculateChecksum L item) w2 = (ru, wu)"
    by (cases "updateProduct env pid item cat (calculateChecksum L item) w2")
  obtain rc wc where c: "createProduct L env e2 item cat (calculateChecksum L item) w2 = (rc, wc)"
    by (cases "createProduct L env e2 item cat (calculateChecksum L item) w2")
  from processItem_unfold [OF f g] assms u c
  have "e' = incSkipped e \<or> e' = incUpdated e2 \<or> e' = incCreated e2 \<or> e' = e2"
    by (cases ru; cases rc) (auto split: if_splits)
  with fr show ?thesis
    by (auto simp: incSkipped_def incUpdated_def incCreated_def)
qed

lemma processCallback_keeps:
  assumes ns: "\<not> shouldStop e" and nomap: "FieldMappings (feed e) = []"
  shows "\<exists>e' w'. processCallback L env item (e, w) = Done (None, (e', w'))
           \<and> feed e' = feed e \<and> \<not> shouldStop e'
           \<and> Processed (progress e') = Processed (progress e) + 1"
proof -
  from processCallback_returns [OF nomap, of L env item w]
  obtain err e' w' where c: "processCallback L env item (e, w) = Done (err, (e', w'))"
    and fe: "feed e' = feed e" by blast
  from processCallback_step [OF c ns]
  have err: "err = None" and p: "Processed (progress e') = Processed (progress e) + 1" by simp_all
  have "\<not> shouldStop e'"
  proof -
    note run = processCallback_running [OF ns, of L env item w]
    from mapItem_no_mappings [OF nomap] obtain m where m: "mapItem L (feed e) item = Done m" ..
    show ?thesis
    proof (cases m)
      case None
      with m run c ns show ?thesis by (simp add: incSkipped_def incProcessed_def)
    next
      case (Some fi)
      obtain r e2 w2 where pi: "processItem L env (incProcessed e) fi w = (r, e2, w2)"
        by (metis prod_cases3)
      from processItem_shouldStop [OF pi] ns have s2: "\<not> shouldStop e2"
        by (simp add: incProcessed_def)
      show ?thesis
        using m Some pi run c s2 ns
        by (cases r)
           (auto simp: incErrors_def incProcessed_def updateProgressStats_def updateProgress_def
              Let_def split: if_splits)
    qed
  qed
  with c err fe p show ?thesis by blast
qed

text \<open>
  A traversal of a list of items with a stop requested after \<open>N\<close> of them: the callback
  returns the cancellation error at the item after the \<open>N\<close>-th, and \<open>N\<close> items are
  processed.
\<close>

lemma forEachItem_stops:
  assumes stop: "stopAfter env = Some N"
  shows "FieldMappings (feed e) = [] \<Longrightarrow> \<not> shouldStop e \<Longrightarrow> Processed (progress e) = int k
     \<Longrightarrow> k \<le> N \<Longrightarrow> N - k < length items
     \<Longrightarrow> \<exists>e' w'. forEachItem (\<lambda>item (e', w'). processCallback L env item (stopRequest env e', w'))
                    items (e, w) = Done (Some cancelledError, (e', w'))
               \<and> Processed (progress e') = int N"
proof (induction items arbitrary: e w k)
  case Nil
  then show ?case by simp
next
  case (Cons item items)
  show ?case
  proof (cases "k = N")
    case True
    with stop Cons.prems(3) have "stopRequest env e = e\<lparr>shouldStop := True\<rparr>"
      by (simp add: stopRequest_def)
    then show ?thesis using Cons.prems(3) True
      by (simp add: processCallback_stopped)
  next
    case False
    with stop Cons.prems(3) have same: "stopRequest env e = e"
      by (simp add: stopRequest_def)
    from processCallback_keeps [OF Cons.prems(2) Cons.prems(1), of L env item w]
    obtain e1 w1 where c: "processCallback L env item (e, w) = Done (None, (e1, w1))"
      and fe: "feed e1 = feed e" and ns: "\<not> shouldStop e1"
      and p: "Processed (progress e1) = Processed (progress e) + 1" by blast
    have "\<exists>e' w'. forEachItem (\<lambda>item (e', w'). processCallback L env item (stopRequest env e', w'))
                    items (e1, w1) = Done (Some cancelledError, (e', w'))
               \<and> Processed (progress e') = int N"
    proof (rule Cons.IH [of e1 "Suc k" w1])
      show "FieldMappings (feed e1) = []" using fe Cons.prems(1) by simp
      show "\<not> shouldStop e1" by (rule ns)
      show "Processed (progress e1) = int (Suc k)" using p Cons.prems(3) by simp
      show "Suc k \<le> N" using False Cons.prems(4) by simp
      show "N - Suc k < length items" using False Cons.prems(4,5) by simp
    qed
    then show ?thesis using c same by simp
  qed
qed

lemma cancelled_contains: "strings_Contains cancelledError ''cancelled''"
  by (simp add: strings_Contains_def cancelledError_def)

lemma startRun_flags:
  "startRun env triggeredBy e w = (e3, history, w3) \<Longrightarrow> \<not> shouldStop e3"
  by (auto simp: startRun_def Let_def updateProgress_def split: prod.splits)

lemma countedRun_shouldStop: "shouldStop (countedRun n e) = shouldStop e"
  by (simp add: countedRun_def Let_def updateProgress_def)

lemma completeImport_status:
  "completeImport env e history w = ((res, err), e', w') \<Longrightarrow>
     Status (progress e') = ImportStatusCompleted
     \<and> (\<exists>h. res = Some h \<and> histErrorMessage h = histErrorMessage history)"
  by (auto simp: completeImport_def Let_def updateProgress_def)

lemma startRun_message:
  "startRun env triggeredBy e w = (e3, history, w3) \<Longrightarrow> histErrorMessage history = None"
  by (auto simp: startRun_def Let_def split: prod.splits)

text \<open>
  C1. The claim: a run that is asked to stop after \<open>N\<close> items ends with status
  \<open>cancelled\<close>, never \<open>completed\<close>, with \<open>N\<close> or \<open>N + 1\<close> items processed, and the
  cancellation error leaves the traversal without being taken for a parse failure. For a
  CSV feed of more than \<open>N\<close> rows the callback does return the cancellation error after
  exactly \<open>N\<close> items and \<^verbatim>\<open>Run\<close> does not fail on it; but \<^verbatim>\<open>Run\<close> then calls
  \<^verbatim>\<open>completeImport\<close>: it returns no error, and the history row and the progress both
  carry the status \<open>completed\<close>. (No run ever gets the status \<open>cancelled\<close>, see
  \<open>Run_history\<close>.)
\<close>

theorem Run_stopped_reports_completed:
  assumes idle: "\<not> isRunning e"
    and csv: "FeedType (feed e) = FeedTypeCSV"
    and delim: "feedCSVDelimiter (feed e) = comma # rest"
    and nomap: "FieldMappings (feed e) = []"
    and dl: "download env = Inr feedData"
    and rows: "csvReadAll L comma feedData = Inr (headers # rows)"
    and stop: "stopAfter env = Some N"
    and more: "N < length rows"
  shows "\<exists>h e' w'. Run L env triggeredBy e w = Some (Done ((Some h, None), e', w'))
           \<and> histStatus h = ImportStatusCompleted \<and> histStatus h \<noteq> ImportStatusCancelled
           \<and> histErrorMessage h = None \<and> histProcessed h = int N
           \<and> Status (progress e') = ImportStatusCompleted"
proof -
  let ?cb = "\<lambda>item (e', w'). processCallback L env item (stopRequest env e', w')"
  obtain e3 history w3 where st: "startRun env triggeredBy e w = (e3, history, w3)"
    by (metis prod_cases3)
  have pd: "CSVDelimiter (runParser e) = comma # rest" using delim by (simp add: runParser_def)
  have pf: "parseFeed L (runParser e) (FeedType (feed e)) feedData cb s
              = Some (forEachItem cb (map (\<lambda>record. csvItem headers record Map.empty) rows) s)"
    for cb :: "rawItem \<Rightarrow> 's \<Rightarrow> (string option \<times> 's) exec" and s
    using csv pd rows
    by (simp add: parseFeed_def FeedTypeCSV_def FeedTypeXML_def ParseCSVFull_def)
  have "\<exists>err s'. forEachItem countCallback (map (\<lambda>record. csvItem headers record Map.empty) rows) (0::int)
          = Done (err, s')"
    by (rule forEachItem_returns [of "\<lambda>s. True"]) (simp_all add: countCallback_def)
  then obtain x totalCount where
    cnt: "parseFeed L (runParser e) (FeedType (feed e)) feedData countCallback 0
            = Some (Done (x, totalCount))"
    using pf [of countCallback 0] by auto
  have "\<exists>e' w'. forEachItem ?cb (map (\<lambda>record. csvItem headers record Map.empty) rows)
                    (countedRun totalCount e3, w3) = Done (Some cancelledError, (e', w'))
               \<and> Processed (progress e') = int N"
  proof (rule forEachItem_stops [OF stop, of _ 0])
    show "FieldMappings (feed (countedRun totalCount e3)) = []"
      using nomap startRun_feed [OF st] by (simp add: countedRun_feed)
    show "\<not> shouldStop (countedRun totalCount e3)"
      using startRun_flags [OF st] by (simp add: countedRun_shouldStop)
    show "Processed (progress (countedRun totalCount e3)) = int 0"
      using startRun_progress [OF st] by (simp add: countedRun_counters)
    show "0 \<le> N" by simp
    show "N - 0 < length (map (\<lambda>record. csvItem headers record Map.empty) rows)"
      using more by simp
  qed
  then obtain e7 w4 where
    tr: "parseFeed L (runParser e) (FeedType (feed e)) feedData ?cb (countedRun totalCount e3, w3)
           = Some (Done (Some cancelledError, (e7, w4)))"
    and p7: "Processed (progress e7) = int N"
    using pf [of ?cb "(countedRun totalCount e3, w3)"] by auto
  let ?h1 = "history\<lparr>histTotalItems := totalCount\<rparr>"
  obtain r y a b where c: "completeImport env e7 ?h1 w4 = ((r, y), a, b)"
    by (cases "completeImport env e7 ?h1 w4") auto
  from idle st dl cnt tr cancelled_contains
  have run: "Run L env triggeredBy e w = Some (Done (released (completeImport env e7 ?h1 w4)))"
    by (simp add: Run_def Let_def)
  from completeImport_history [OF c] obtain h where h: "r = Some h" "y = None"
    "histStatus h = ImportStatusCompleted" "histProcessed h = Processed (progress e7)"
    by blast
  from completeImport_status [OF c] h startRun_message [OF st]
  have s: "Status (progress a) = ImportStatusCompleted" "histErrorMessage h = None" by auto
  have "Run L env triggeredBy e w = Some (Done ((Some h, None), a\<lparr>isRunning := False\<rparr>, b))"
    using run c h by (simp add: released_def)
  moreover have "histStatus h \<noteq> ImportStatusCancelled"
    using h(3) by (simp add: ImportStatusCompleted_def ImportStatusCancelled_def)
  ultimately show ?thesis using h p7 s by auto
qed

lemma demoCSV_rows:
  "csvReadAll (plainLib digest) (CHR '';'') demoCSV
     = Inr ([''title'', ''price''] # [[''Widget'', ''1''], [''Gadget'', ''2'']])"
  by (simp add: csvReadAll_def plainLib_def plainCSV_def demoCSV_def strings_Split_def)

theorem Run_stopped_reports_completed_witness:
  "\<not> isRunning (NewImportEngine (shopFeed FeedTypeCSV ImportModeCreateUpdate))
   \<and> csvReadAll (plainLib (\<lambda>s. s)) (CHR '';'') demoCSV
       = Inr ([''title'', ''price''] # [[''Widget'', ''1''], [''Gadget'', ''2'']])
   \<and> stopAfter (plainEnv demoCSV (Some 1)) = Some 1
   \<and> (\<exists>h e' w'.
        Run (plainLib (\<lambda>s. s)) (plainEnv demoCSV (Some 1)) ''manual''
          (NewImportEngine (shopFeed FeedTypeCSV ImportModeCreateUpdate)) emptyWorld
          = Some (Done ((Some h, None), e', w'))
        \<and> histStatus h = ''completed'' \<and> histProcessed h = 1
        \<and> Status (progress e') = ''completed'')"
proof -
  let ?E = "NewImportEngine (shopFeed FeedTypeCSV ImportModeCreateUpdate)"
  let ?env = "plainEnv demoCSV (Some 1)"
  have idle: "\<not> isRunning ?E" and csv: "FeedType (feed ?E) = FeedTypeCSV"
    and delim: "feedCSVDelimiter (feed ?E) = CHR '';'' # []"
    and nomap: "FieldMappings (feed ?E) = []"
    by (simp_all add: NewImportEngine_def shopFeed_def)
  have dl: "download ?env = Inr demoCSV" and stop: "stopAfter ?env = Some 1"
    by (simp_all add: plainEnv_def)
  have more: "(1::nat) < length [[''Widget'', ''1''], [''Gadget'', ''2'']]" by simp
  from Run_stopped_reports_completed
    [OF idle csv delim nomap dl demoCSV_rows stop more, of "\<lambda>s. s" "''manual''" emptyWorld]
  obtain h e' w' where
    r: "Run (plainLib (\<lambda>s. s)) ?env ''manual'' ?E emptyWorld = Some (Done ((Some h, None), e', w'))"
    and f: "histStatus h = ImportStatusCompleted" "histProcessed h = int 1"
      "Status (progress e') = ImportStatusCompleted"
    by blast
  have "\<exists>h e' w'.
        Run (plainLib (\<lambda>s. s)) ?env ''manual'' ?E emptyWorld = Some (Done ((Some h, None), e', w'))
        \<and> histStatus h = ''completed'' \<and> histProcessed h = 1
        \<and> Status (progress e') = ''completed''"
    using r f by (intro exI [of _ h] exI [of _ e'] exI [of _ w']) (simp add: ImportStatusCompleted_def)
  with idle demoCSV_rows [of "\<lambda>s. s"] stop show ?thesis by blast
qed

subsection \<open>Starting a run that is already in progress\<close>

text \<open>
  C9. \<^verbatim>\<open>Run\<close> on an engine whose \<^verbatim>\<open>isRunning\<close> flag is set returns the error
  \<^verbatim>\<open>import already running\<close> and no history row, with the engine (its flags, counters and
  progress) and the database exactly as they were: no statement is sent and no identifier
  drawn. \<^verbatim>\<open>Handler.StartImport\<close>, for a feed it finds and that has an engine in its map,
  answers 409 with the map unchanged and the database unchanged but for the one
  \<^verbatim>\<open>SELECT\<close> that read the feed.
\<close>

theorem start_conflict_changes_nothing:
  "(isRunning e
      \<longrightarrow> Run L env triggeredBy e w
            = Some (Done ((None, Some ''import already running''), e, w)))
   \<and> (feedsTable db feedID = Some f \<and> \<not> dbDown env (stmts db)
        \<and> importEngines h feedID = Some running
      \<longrightarrow> StartImport env feedID h db
            = ((409, ''Import already running''), h, db\<lparr>stmts := stmts db + 1\<rparr>))"
  by (simp add: Run_def StartImport_def tick_def)

theorem start_conflict_changes_nothing_witness:
  "isRunning ((NewImportEngine (shopFeed FeedTypeCSV ImportModeCreateUpdate))\<lparr>isRunning := True\<rparr>)
   \<and> Run (plainLib (\<lambda>s. s)) (plainEnv demoCSV None) ''manual''
        ((NewImportEngine (shopFeed FeedTypeCSV ImportModeCreateUpdate))\<lparr>isRunning := True\<rparr>)
        (catalogWith [storedWidget ''0123''])
       = Some (Done ((None, Some ''import already running''),
            (NewImportEngine (shopFeed FeedTypeCSV ImportModeCreateUpdate))\<lparr>isRunning := True\<rparr>,
            catalogWith [storedWidget ''0123'']))
   \<and> feedsTable (emptyWorld\<lparr>feedsTable := [''feed-1'' \<mapsto> shopFeed FeedTypeCSV ImportModeCreateUpdate]\<rparr>)
        ''feed-1'' = Some (shopFeed FeedTypeCSV ImportModeCreateUpdate)
   \<and> \<not> dbDown (plainEnv demoCSV None)
          (stmts (emptyWorld\<lparr>feedsTable := [''feed-1'' \<mapsto> shopFeed FeedTypeCSV ImportModeCreateUpdate]\<rparr>))
   \<and> importEngines
        \<lparr>importEngines = [''feed-1'' \<mapsto> NewImportEngine (shopFeed FeedTypeCSV ImportModeCreateUpdate)]\<rparr>
        ''feed-1'' = Some (NewImportEngine (shopFeed FeedTypeCSV ImportModeCreateUpdate))
   \<and> StartImport (plainEnv demoCSV None) ''feed-1''
        \<lparr>importEngines = [''feed-1'' \<mapsto> NewImportEngine (shopFeed FeedTypeCSV ImportModeCreateUpdate)]\<rparr>
        (emptyWorld\<lparr>feedsTable := [''feed-1'' \<mapsto> shopFeed FeedTypeCSV ImportModeCreateUpdate]\<rparr>)
       = ((409, ''Import already running''),
          \<lparr>importEngines = [''feed-1'' \<mapsto> NewImportEngine (shopFeed FeedTypeCSV ImportModeCreateUpdate)]\<rparr>,
          emptyWorld\<lparr>feedsTable := [''feed-1'' \<mapsto> shopFeed FeedTypeCSV ImportModeCreateUpdate],
                     stmts := 1\<rparr>)"
proof -
  let ?f = "shopFeed FeedTypeCSV ImportModeCreateUpdate"
  let ?e = "(NewImportEngine ?f)\<lparr>isRunning := True\<rparr>"
  let ?w = "emptyWorld\<lparr>feedsTable := [''feed-1'' \<mapsto> ?f]\<rparr>"
  let ?h = "\<lparr>importEngines = [''feed-1'' \<mapsto> NewImportEngine ?f]\<rparr>"
  have a: "isRunning ?e" by simp
  have b: "feedsTable ?w ''feed-1'' = Some ?f" by simp
  have c: "\<not> dbDown (plainEnv demoCSV None) (stmts ?w)" by (simp add: plainEnv_def)
  have d: "importEngines ?h ''feed-1'' = Some (NewImportEngine ?f)" by simp
  have s: "?w\<lparr>stmts := stmts ?w + 1\<rparr> = emptyWorld\<lparr>feedsTable := [''feed-1'' \<mapsto> ?f], stmts := 1\<rparr>"
    by (simp add: emptyWorld_def)
  from start_conflict_changes_nothing
    [where e = ?e and L = "plainLib (\<lambda>s. s)" and env = "plainEnv demoCSV None"
       and triggeredBy = "''manual''" and w = "catalogWith [storedWidget ''0123'']"]
    a
  have r: "Run (plainLib (\<lambda>s. s)) (plainEnv demoCSV None) ''manual'' ?e (catalogWith [storedWidget ''0123''])
       = Some (Done ((None, Some ''import already running''), ?e, catalogWith [storedWidget ''0123'']))"
    by blast
  from start_conflict_changes_nothing
    [where env = "plainEnv demoCSV None" and db = ?w and feedID = "''feed-1''" and f = ?f
       and h = ?h and running = "NewImportEngine ?f"] b c d
  have t: "StartImport (plainEnv demoCSV None) ''feed-1'' ?h ?w
       = ((409, ''Import already running''), ?h, ?w\<lparr>stmts := stmts ?w + 1\<rparr>)"
    by blast
  show ?thesis using a r b c d t [unfolded s] by blast
qed

subsection \<open>Resolving a category path twice\<close>

lemma slug_electronics: "slugBase L ''Electronics'' = ''electronics''" by code_simp
lemma slug_phones: "slugBase L ''Phones'' = ''phones''" by code_simp
lemma slug_smartphones: "slugBase L ''Smartphones'' = ''smartphones''" by code_simp

lemma trim_names:
  "strings_TrimSpace ''Electronics'' = ''Electronics''"
  "strings_TrimSpace ''Phones'' = ''Phones''"
  "strings_TrimSpace ''Smartphones'' = ''Smartphones''"
  by code_simp+

lemma parts_demo:
  "categoryParts ''Electronics|Phones|Smartphones'' = [''Electronics'', ''Phones'', ''Smartphones'']"
  by code_simp

lemma uuidOf_prefixes:
  "take 8 (uuidOf 0) = ''00000000''" "take 8 (uuidOf 2) = ''00000002''"
  "take 8 (uuidOf 4) = ''00000004''" "take 8 (uuidOf 6) = ''00000006''"
  "take 8 (uuidOf 8) = ''00000008''" "take 8 (uuidOf 10) = ''00000010''"
  by code_simp+

lemma uuidOf_nonempty: "uuidOf n \<noteq> ''''"
  by (simp add: uuidOf_def)

text \<open>One turn of the loop over the parts when the lookup finds nothing.\<close>

lemma resolveParts_creates:
  assumes "strings_TrimSpace part = name" "name \<noteq> ''''"
    and "\<not> dbDown env (stmts w)" "\<not> dbDown env (stmts w + 1)"
    and "find (\<lambda>c. c_slug c = slugBase L name @ ''-'' @ take 8 (uuidNew env (uuids w))
                     \<and> c_parent_id c = parentID) (categories w) = None"
    and "uuidNew env (uuids w + 1) \<noteq> ''''"
  shows "resolveParts L env (part # parts) parentID lastID w =
           resolveParts L env parts (Some (uuidNew env (uuids w + 1))) (uuidNew env (uuids w + 1))
             (w\<lparr>uuids := uuids w + 2,
                categories := categories w @
                   [\<lparr>c_id = uuidNew env (uuids w + 1), c_name = name,
                     c_slug = slugBase L name @ ''-'' @ take 8 (uuidNew env (uuids w)),
                     c_parent_id = parentID, c_product_count = 0, c_is_active = True\<rparr>],
                stmts := stmts w + 2\<rparr>)"
  using assms
  by (simp add: Let_def generateSlug_def uuid_New_def queryCategory_def insertCategory_def tick_def)

lemma first_resolution:
  "resolveParts L (plainEnv '''' None) [''Electronics'', ''Phones'', ''Smartphones''] None ''''
     emptyWorld = (uuidOf 5, afterRuns 1)"
proof -
  let ?env = "plainEnv '''' None"
  let ?w1 = "emptyWorld\<lparr>uuids := 2, categories := [catRow 1 ''Electronics'' ''electronics-00000000'' None],
                       stmts := 2\<rparr>"
  let ?w2 = "emptyWorld\<lparr>uuids := 4, categories := [catRow 1 ''Electronics'' ''electronics-00000000'' None,
                         catRow 3 ''Phones'' ''phones-00000002'' (Some (uuidOf 1))],
                       stmts := 4\<rparr>"
  have s1: "resolveParts L ?env [''Electronics'', ''Phones'', ''Smartphones''] None '''' emptyWorld
              = resolveParts L ?env [''Phones'', ''Smartphones''] (Some (uuidOf 1)) (uuidOf 1) ?w1"
    using resolveParts_creates
      [of "''Electronics''" "''Electronics''" ?env emptyWorld L None "[''Phones'', ''Smartphones'']" "''''"]
    by (simp add: trim_names slug_electronics uuidOf_prefixes uuidOf_nonempty plainEnv_def
          emptyWorld_def catRow_def numeral_2_eq_2 del: resolveParts.simps)
  have s2: "resolveParts L ?env [''Phones'', ''Smartphones''] (Some (uuidOf 1)) (uuidOf 1) ?w1
              = resolveParts L ?env [''Smartphones''] (Some (uuidOf 3)) (uuidOf 3) ?w2"
    using resolveParts_creates
      [of "''Phones''" "''Phones''" ?env ?w1 L "Some (uuidOf 1)" "[''Smartphones'']" "uuidOf 1"]
    by (simp add: trim_names slug_phones uuidOf_prefixes uuidOf_nonempty plainEnv_def
          emptyWorld_def catRow_def del: resolveParts.simps)
  have s3: "resolveParts L ?env [''Smartphones''] (Some (uuidOf 3)) (uuidOf 3) ?w2
              = resolveParts L ?env [] (Some (uuidOf 5)) (uuidOf 5) (afterRuns 1)"
    using resolveParts_creates
      [of "''Smartphones''" "''Smartphones''" ?env ?w2 L "Some (uuidOf 3)" "[]" "uuidOf 3"]
    by (simp add: trim_names slug_smartphones uuidOf_prefixes uuidOf_nonempty plainEnv_def
          emptyWorld_def catRow_def afterRuns_def firstRunRows_def del: resolveParts.simps)
  show ?thesis unfolding s1 s2 s3 by simp
qed

lemma second_resolution:
  "resolveParts L (plainEnv '''' None) [''Electronics'', ''Phones'', ''Smartphones''] None ''''
     (afterRuns 1) = (uuidOf 11, afterRuns 2)"
proof -
  let ?env = "plainEnv '''' None"
  let ?w1 = "emptyWorld\<lparr>uuids := 8,
               categories := firstRunRows @ [catRow 7 ''Electronics'' ''electronics-00000006'' None],
               stmts := 8\<rparr>"
  let ?w2 = "emptyWorld\<lparr>uuids := 10,
               categories := firstRunRows @ [catRow 7 ''Electronics'' ''electronics-00000006'' None,
                 catRow 9 ''Phones'' ''phones-00000008'' (Some (uuidOf 7))],
               stmts := 10\<rparr>"
  have s1: "resolveParts L ?env [''Electronics'', ''Phones'', ''Smartphones''] None '''' (afterRuns 1)
              = resolveParts L ?env [''Phones'', ''Smartphones''] (Some (uuidOf 7)) (uuidOf 7) ?w1"
    using resolveParts_creates
      [of "''Electronics''" "''Electronics''" ?env "afterRuns 1" L None "[''Phones'', ''Smartphones'']" "''''"]
    by (simp add: trim_names slug_electronics uuidOf_prefixes uuidOf_nonempty plainEnv_def
          emptyWorld_def catRow_def afterRuns_def firstRunRows_def del: resolveParts.simps)
  have s2: "resolveParts L ?env [''Phones'', ''Smartphones''] (Some (uuidOf 7)) (uuidOf 7) ?w1
              = resolveParts L ?env [''Smartphones''] (Some (uuidOf 9)) (uuidOf 9) ?w2"
    using resolveParts_creates
      [of "''Phones''" "''Phones''" ?env ?w1 L "Some (uuidOf 7)" "[''Smartphones'']" "uuidOf 7"]
    by (simp add: trim_names slug_phones uuidOf_prefixes uuidOf_nonempty plainEnv_def
          emptyWorld_def catRow_def firstRunRows_def del: resolveParts.simps)
  have s3: "resolveParts L ?env [''Smartphones''] (Some (uuidOf 9)) (uuidOf 9) ?w2
              = resolveParts L ?env [] (Some (uuidOf 11)) (uuidOf 11) (afterRuns 2)"
    using resolveParts_creates
      [of "''Smartphones''" "''Smartphones''" ?env ?w2 L "Some (uuidOf 9)" "[]" "uuidOf 9"]
    by (simp add: trim_names slug_smartphones uuidOf_prefixes uuidOf_nonempty plainEnv_def
          emptyWorld_def catRow_def afterRuns_def firstRunRows_def secondRunRows_def
          del: resolveParts.simps)
  show ?thesis unfolding s1 s2 s3 by simp
qed

lemma uuidOf_5_11: "uuidOf 5 \<noteq> uuidOf 11"
  by code_simp

text \<open>
  C4. The claim: resolving \<^verbatim>\<open>Electronics|Phones|Smartphones\<close> against a catalog without
  these categories creates exactly three nodes, a second run creates none, and within a run
  the leaf is cached by the path. Evaluated with the database answering and the identifier
  source \<open>uuidOf\<close>: the first resolution creates the three rows \<open>firstRunRows\<close> and
  caches the leaf; resolving again in the same run returns the cached leaf and touches
  nothing. A second run (a new engine, the same database) looks each part up by a slug that
  \<^verbatim>\<open>generateSlug\<close> has just given a fresh suffix, finds none of the rows of the first
  run, and creates three more rows with the same names: six rows, and another leaf.
\<close>

theorem getOrCreateCategory_second_run_creates_again:
  "getOrCreateCategory L (plainEnv '''' None) ''Electronics|Phones|Smartphones''
       (NewImportEngine f) emptyWorld
     = (Some (uuidOf 5),
        (NewImportEngine f)\<lparr>categoryCache := [''Electronics|Phones|Smartphones'' \<mapsto> uuidOf 5]\<rparr>,
        afterRuns 1)
   \<and> categories emptyWorld = [] \<and> categories (afterRuns 1) = firstRunRows
   \<and> length firstRunRows = 3
   \<and> getOrCreateCategory L (plainEnv '''' None) ''Electronics|Phones|Smartphones''
         ((NewImportEngine f)\<lparr>categoryCache := [''Electronics|Phones|Smartphones'' \<mapsto> uuidOf 5]\<rparr>)
         (afterRuns 1)
       = (Some (uuidOf 5),
          (NewImportEngine f)\<lparr>categoryCache := [''Electronics|Phones|Smartphones'' \<mapsto> uuidOf 5]\<rparr>,
          afterRuns 1)
   \<and> getOrCreateCategory L (plainEnv '''' None) ''Electronics|Phones|Smartphones''
         (NewImportEngine f) (afterRuns 1)
       = (Some (uuidOf 11),
          (NewImportEngine f)\<lparr>categoryCache := [''Electronics|Phones|Smartphones'' \<mapsto> uuidOf 11]\<rparr>,
          afterRuns 2)
   \<and> categories (afterRuns 2) = firstRunRows @ secondRunRows
   \<and> length (categories (afterRuns 2)) = 6
   \<and> map c_name secondRunRows = map c_name firstRunRows
   \<and> uuidOf 5 \<noteq> uuidOf 11"
proof -
  have cache: "categoryCache (NewImportEngine f) ''Electronics|Phones|Smartphones'' = None"
    by (simp add: NewImportEngine_def)
  have r1: "getOrCreateCategory L (plainEnv '''' None) ''Electronics|Phones|Smartphones''
       (NewImportEngine f) emptyWorld
     = (Some (uuidOf 5),
        (NewImportEngine f)\<lparr>categoryCache := [''Electronics|Phones|Smartphones'' \<mapsto> uuidOf 5]\<rparr>,
        afterRuns 1)"
    by (simp add: getOrCreateCategory_def cache parts_demo first_resolution uuidOf_nonempty
          NewImportEngine_def del: resolveParts.simps)
  have r1': "getOrCreateCategory L (plainEnv '''' None) ''Electronics|Phones|Smartphones''
         ((NewImportEngine f)\<lparr>categoryCache := [''Electronics|Phones|Smartphones'' \<mapsto> uuidOf 5]\<rparr>)
         (afterRuns 1)
       = (Some (uuidOf 5),
          (NewImportEngine f)\<lparr>categoryCache := [''Electronics|Phones|Smartphones'' \<mapsto> uuidOf 5]\<rparr>,
          afterRuns 1)"
    by (simp add: getOrCreateCategory_def)
  have r2: "getOrCreateCategory L (plainEnv '''' None) ''Electronics|Phones|Smartphones''
         (NewImportEngine f) (afterRuns 1)
       = (Some (uuidOf 11),
          (NewImportEngine f)\<lparr>categoryCache := [''Electronics|Phones|Smartphones'' \<mapsto> uuidOf 11]\<rparr>,
          afterRuns 2)"
    by (simp add: getOrCreateCategory_def cache parts_demo second_resolution uuidOf_nonempty
          NewImportEngine_def del: resolveParts.simps One_nat_def)
  have rows: "categories emptyWorld = []" "categories (afterRuns 1) = firstRunRows"
    "length firstRunRows = 3" "categories (afterRuns 2) = firstRunRows @ secondRunRows"
    "length (categories (afterRuns 2)) = 6" "map c_name secondRunRows = map c_name firstRunRows"
    by (simp_all add: emptyWorld_def afterRuns_def firstRunRows_def secondRunRows_def catRow_def)
  show ?thesis using r1 r1' r2 rows uuidOf_5_11 by simp
qed

end
